theory Spec2Isabelle
  imports Complex_Main "HOL-Library.Monad_Syntax"
begin

section \<open>Tensors\<close>

text \<open>
  The program is written against a tensor library. A tensor is modelled by its shape and
  the function from multi-indices to entries; only the entries at indices inside the
  shape matter. Every library call that can raise returns an \<open>option\<close>, \<open>None\<close>
  standing for the exception.

  Entries of floating-point tensors are idealised: a finite entry is a real number, so
  rounding, overflow and underflow are not represented; the three non-finite values are
  kept, because a division by zero produces them. Entries of \<open>int32\<close> tensors are
  integers; the only integer tensors of the program hold entries below the grid size.
\<close>

record 'a tensor =
  shape :: "nat list"
  elem :: "nat list \<Rightarrow> 'a"

datatype fval = Fin real | PInf | NInf | NaN

fun fdiv_scalar :: "fval \<Rightarrow> real \<Rightarrow> fval" where
  "fdiv_scalar (Fin a) s =
     (if s = 0 then (if a = 0 then NaN else if 0 < a then PInf else NInf) else Fin (a / s))"
| "fdiv_scalar PInf s = (if 0 \<le> s then PInf else NInf)"
| "fdiv_scalar NInf s = (if 0 \<le> s then NInf else PInf)"
| "fdiv_scalar NaN s = NaN"

fun fmul_scalar :: "fval \<Rightarrow> real \<Rightarrow> fval" where
  "fmul_scalar (Fin a) s = Fin (a * s)"
| "fmul_scalar PInf s = (if s = 0 then NaN else if 0 < s then PInf else NInf)"
| "fmul_scalar NInf s = (if s = 0 then NaN else if 0 < s then NInf else PInf)"
| "fmul_scalar NaN s = NaN"

fun fsub_scalar :: "fval \<Rightarrow> real \<Rightarrow> fval" where
  "fsub_scalar (Fin a) s = Fin (a - s)"
| "fsub_scalar PInf s = PInf"
| "fsub_scalar NInf s = NInf"
| "fsub_scalar NaN s = NaN"

fun fadd :: "fval \<Rightarrow> fval \<Rightarrow> fval" where
  "fadd (Fin a) (Fin b) = Fin (a + b)"
| "fadd NaN y = NaN"
| "fadd x NaN = NaN"
| "fadd PInf NInf = NaN"
| "fadd NInf PInf = NaN"
| "fadd PInf y = PInf"
| "fadd NInf y = NInf"
| "fadd x PInf = PInf"
| "fadd x NInf = NInf"

text \<open>\<open>torch.pow(b, x)\<close> for a scalar base \<open>b > 1\<close> (the program's only base is 1.1).\<close>

fun fpow_base :: "real \<Rightarrow> fval \<Rightarrow> fval" where
  "fpow_base b (Fin x) = Fin (b powr x)"
| "fpow_base b PInf = PInf"
| "fpow_base b NInf = Fin 0"
| "fpow_base b NaN = NaN"

subsection \<open>Dimensions and shapes\<close>

text \<open>A dimension argument \<open>d\<close> of a tensor with \<open>n\<close> dimensions: negative values count
  from the end, anything outside \<open>[-n, n)\<close> is an \<open>IndexError\<close>.\<close>

definition wrap_dim :: "int \<Rightarrow> nat \<Rightarrow> nat option" where
  "wrap_dim d n =
     (if - int n \<le> d \<and> d < int n then Some (nat (if d < 0 then d + int n else d)) else None)"

definition swap :: "'b list \<Rightarrow> nat \<Rightarrow> nat \<Rightarrow> 'b list" where
  "swap xs i j = xs[i := xs ! j, j := xs ! i]"

fun index_of :: "nat list \<Rightarrow> nat \<Rightarrow> nat" where
  "index_of [] d = 0"
| "index_of (x # xs) d = (if x = d then 0 else Suc (index_of xs d))"

definition unsqueeze_shape :: "nat list \<Rightarrow> int \<Rightarrow> nat list option" where
  "unsqueeze_shape s d = do {
     k \<leftarrow> wrap_dim d (length s + 1);
     Some (take k s @ 1 # drop k s) }"

definition transpose_shape :: "nat list \<Rightarrow> int \<Rightarrow> int \<Rightarrow> nat list option" where
  "transpose_shape s d0 d1 = do {
     i \<leftarrow> wrap_dim d0 (length s);
     j \<leftarrow> wrap_dim d1 (length s);
     Some (swap s i j) }"

text \<open>\<open>squeeze(d)\<close> removes dimension \<open>d\<close> when its size is 1 and otherwise leaves the
  tensor as it is.\<close>

definition squeeze_shape :: "nat list \<Rightarrow> int \<Rightarrow> nat list option" where
  "squeeze_shape s d = do {
     k \<leftarrow> wrap_dim d (length s);
     Some (if s ! k = 1 then take k s @ drop (Suc k) s else s) }"

definition permute_shape :: "nat list \<Rightarrow> nat list \<Rightarrow> nat list option" where
  "permute_shape s dims =
     (if sort dims = [0..<length s] then Some (map (\<lambda>d. s ! d) dims) else None)"

text \<open>Broadcasting of one dimension, and of two shapes aligned at their last dimension.\<close>

definition bdim :: "nat \<Rightarrow> nat \<Rightarrow> nat option" where
  "bdim p q = (if p = q then Some p else if p = 1 then Some q else if q = 1 then Some p else None)"

fun bdims :: "nat list \<Rightarrow> nat list \<Rightarrow> nat list option" where
  "bdims [] [] = Some []"
| "bdims (p # ps) (q # qs) = do { r \<leftarrow> bdim p q; rs \<leftarrow> bdims ps qs; Some (r # rs) }"
| "bdims _ _ = None"

definition broadcast_shapes :: "nat list \<Rightarrow> nat list \<Rightarrow> nat list option" where
  "broadcast_shapes a b =
     bdims (replicate (length b - length a) 1 @ a) (replicate (length a - length b) 1 @ b)"

text \<open>The index into an operand of shape \<open>s\<close> that the index \<open>ix\<close> of the broadcast
  result reads.\<close>

definition bindex :: "nat list \<Rightarrow> nat list \<Rightarrow> nat list" where
  "bindex s ix = map2 (\<lambda>n i. if n = 1 then 0 else i) s (drop (length ix - length s) ix)"

text \<open>\<open>torch.matmul\<close> of two three-dimensional tensors: a batch of matrix products, the
  batch dimension broadcast. The program multiplies no other ranks, which are left out
  here (\<open>None\<close>).\<close>

definition matmul_shape :: "nat list \<Rightarrow> nat list \<Rightarrow> nat list option" where
  "matmul_shape a b =
     (case (a, b) of
        ([p, n, k], [q, k', m]) \<Rightarrow>
          (if k = k' then do { r \<leftarrow> bdim p q; Some [r, n, m] } else None)
      | _ \<Rightarrow> None)"

text \<open>\<open>torch.cat\<close>: at least one tensor, all of one rank and equal outside the
  dimension of concatenation.\<close>

definition cat_shape :: "nat list list \<Rightarrow> int \<Rightarrow> nat list option" where
  "cat_shape ss axis =
     (case ss of
        [] \<Rightarrow> None
      | s # rest \<Rightarrow> do {
          d \<leftarrow> wrap_dim axis (length s);
          if list_all (\<lambda>s'. length s' = length s \<and> s'[d := 0] = s[d := 0]) rest
          then Some (s[d := sum_list (map (\<lambda>s'. s' ! d) ss)])
          else None })"

text \<open>\<open>t.repeat(*reps)\<close>: at least as many repetition counts as dimensions.\<close>

definition repeat_shape :: "nat list \<Rightarrow> nat list \<Rightarrow> nat list option" where
  "repeat_shape s reps =
     (if length s \<le> length reps
      then Some (map2 (*) reps (replicate (length reps - length s) 1 @ s))
      else None)"

text \<open>\<open>t[:, i]\<close> and its generalisation to dimension \<open>d\<close>: the index must exist.\<close>

definition select_shape :: "nat list \<Rightarrow> nat \<Rightarrow> nat \<Rightarrow> nat list option" where
  "select_shape s d i =
     (if d < length s \<and> i < s ! d then Some (take d s @ drop (Suc d) s) else None)"

subsection \<open>Operations on tensors\<close>

definition ones :: "nat list \<Rightarrow> int tensor" where
  "ones s = \<lparr>shape = s, elem = (\<lambda>ix. 1)\<rparr>"

definition arange :: "nat \<Rightarrow> int tensor" where
  "arange n = \<lparr>shape = [n], elem = (\<lambda>ix. int (hd ix))\<rparr>"

definition unsqueeze :: "'a tensor \<Rightarrow> int \<Rightarrow> 'a tensor option" where
  "unsqueeze t d = do {
     k \<leftarrow> wrap_dim d (length (shape t) + 1);
     s \<leftarrow> unsqueeze_shape (shape t) d;
     Some \<lparr>shape = s, elem = (\<lambda>ix. elem t (take k ix @ drop (Suc k) ix))\<rparr> }"

definition transpose_t :: "'a tensor \<Rightarrow> int \<Rightarrow> int \<Rightarrow> 'a tensor option" where
  "transpose_t t d0 d1 = do {
     i \<leftarrow> wrap_dim d0 (length (shape t));
     j \<leftarrow> wrap_dim d1 (length (shape t));
     s \<leftarrow> transpose_shape (shape t) d0 d1;
     Some \<lparr>shape = s, elem = (\<lambda>ix. elem t (swap ix i j))\<rparr> }"

definition squeeze :: "'a tensor \<Rightarrow> int \<Rightarrow> 'a tensor option" where
  "squeeze t d = do {
     k \<leftarrow> wrap_dim d (length (shape t));
     s \<leftarrow> squeeze_shape (shape t) d;
     Some \<lparr>shape = s,
           elem = (if shape t ! k = 1 then (\<lambda>ix. elem t (take k ix @ 0 # drop k ix))
                   else elem t)\<rparr> }"

definition permute :: "'a tensor \<Rightarrow> nat list \<Rightarrow> 'a tensor option" where
  "permute t dims = do {
     s \<leftarrow> permute_shape (shape t) dims;
     Some \<lparr>shape = s,
           elem = (\<lambda>ix. elem t (map (\<lambda>d. ix ! index_of dims d) [0..<length dims]))\<rparr> }"

definition matmul :: "int tensor \<Rightarrow> int tensor \<Rightarrow> int tensor option" where
  "matmul a b = do {
     s \<leftarrow> matmul_shape (shape a) (shape b);
     Some \<lparr>shape = s,
           elem = (\<lambda>ix. \<Sum>l \<leftarrow> [0..<shape a ! 2].
                     elem a [if shape a ! 0 = 1 then 0 else ix ! 0, ix ! 1, l] *
                     elem b [if shape b ! 0 = 1 then 0 else ix ! 0, l, ix ! 2])\<rparr> }"

definition to_float :: "int tensor \<Rightarrow> fval tensor" where
  "to_float t = \<lparr>shape = shape t, elem = (\<lambda>ix. Fin (real_of_int (elem t ix)))\<rparr>"

definition div_scalar :: "fval tensor \<Rightarrow> real \<Rightarrow> fval tensor" where
  "div_scalar t s = \<lparr>shape = shape t, elem = (\<lambda>ix. fdiv_scalar (elem t ix) s)\<rparr>"

definition mul_scalar :: "fval tensor \<Rightarrow> real \<Rightarrow> fval tensor" where
  "mul_scalar t s = \<lparr>shape = shape t, elem = (\<lambda>ix. fmul_scalar (elem t ix) s)\<rparr>"

definition sub_scalar :: "fval tensor \<Rightarrow> real \<Rightarrow> fval tensor" where
  "sub_scalar t s = \<lparr>shape = shape t, elem = (\<lambda>ix. fsub_scalar (elem t ix) s)\<rparr>"

definition pow_base :: "real \<Rightarrow> fval tensor \<Rightarrow> fval tensor" where
  "pow_base b t = \<lparr>shape = shape t, elem = (\<lambda>ix. fpow_base b (elem t ix))\<rparr>"

fun cat_elem :: "'a tensor \<Rightarrow> 'a tensor list \<Rightarrow> nat \<Rightarrow> nat list \<Rightarrow> 'a" where
  "cat_elem t [] d ix = elem t ix"
| "cat_elem t (u # us) d ix =
     (if ix ! d < shape t ! d then elem t ix
      else cat_elem u us d (ix[d := ix ! d - shape t ! d]))"

definition cat :: "'a tensor list \<Rightarrow> int \<Rightarrow> 'a tensor option" where
  "cat ts axis =
     (case ts of
        [] \<Rightarrow> None
      | t # rest \<Rightarrow> do {
          d \<leftarrow> wrap_dim axis (length (shape t));
          s \<leftarrow> cat_shape (map shape ts) axis;
          Some \<lparr>shape = s, elem = cat_elem t rest d\<rparr> })"

definition repeat :: "'a tensor \<Rightarrow> nat list \<Rightarrow> 'a tensor option" where
  "repeat t reps = do {
     s \<leftarrow> repeat_shape (shape t) reps;
     Some \<lparr>shape = s,
           elem = (\<lambda>ix. elem t (map2 (\<lambda>i n. i mod n)
                                  (drop (length reps - length (shape t)) ix) (shape t)))\<rparr> }"

definition select :: "'a tensor \<Rightarrow> nat \<Rightarrow> nat \<Rightarrow> 'a tensor option" where
  "select t d i = do {
     s \<leftarrow> select_shape (shape t) d i;
     Some \<lparr>shape = s, elem = (\<lambda>ix. elem t (take d ix @ i # drop d ix))\<rparr> }"

text \<open>\<open>t[:, i] = v\<close> (generalised to dimension \<open>d\<close>): \<open>v\<close> is broadcast to the shape of
  the selected slice.\<close>

definition assign_select :: "'a tensor \<Rightarrow> nat \<Rightarrow> nat \<Rightarrow> 'a tensor \<Rightarrow> 'a tensor option" where
  "assign_select t d i v = do {
     s \<leftarrow> select_shape (shape t) d i;
     b \<leftarrow> broadcast_shapes (shape v) s;
     if b = s
     then Some \<lparr>shape = shape t,
                elem = (\<lambda>ix. if ix ! d = i
                              then elem v (bindex (shape v) (take d ix @ drop (Suc d) ix))
                              else elem t ix)\<rparr>
     else None }"

definition add :: "fval tensor \<Rightarrow> fval tensor \<Rightarrow> fval tensor option" where
  "add a b = do {
     s \<leftarrow> broadcast_shapes (shape a) (shape b);
     Some \<lparr>shape = s,
           elem = (\<lambda>ix. fadd (elem a (bindex (shape a) ix)) (elem b (bindex (shape b) ix)))\<rparr> }"

text \<open>In-place addition \<open>a += b\<close>: the broadcast shape must be the shape of \<open>a\<close>.\<close>

definition iadd :: "fval tensor \<Rightarrow> fval tensor \<Rightarrow> fval tensor option" where
  "iadd a b = do {
     r \<leftarrow> add a b;
     if shape r = shape a then Some r else None }"

section \<open>The coordinate map\<close>

definition get_coord_maps :: "nat \<Rightarrow> fval tensor option" where
  "get_coord_maps size' = do {
     xx_ones \<leftarrow> unsqueeze (ones [1, size']) (-1);
     xx_range \<leftarrow> unsqueeze (arange size') 0;
     xx_range \<leftarrow> unsqueeze xx_range 1;
     xx_channel \<leftarrow> matmul xx_ones xx_range;
     xx_channel \<leftarrow> unsqueeze xx_channel (-1);
     yy_ones \<leftarrow> unsqueeze (ones [1, size']) 1;
     yy_range \<leftarrow> unsqueeze (arange size') 0;
     yy_range \<leftarrow> unsqueeze yy_range (-1);
     yy_channel \<leftarrow> matmul yy_range yy_ones;
     yy_channel \<leftarrow> unsqueeze yy_channel (-1);
     xx_channel \<leftarrow> permute xx_channel [0, 3, 1, 2];
     yy_channel \<leftarrow> permute yy_channel [0, 3, 1, 2];
     xx_channel \<leftarrow> Some (div_scalar (to_float xx_channel) (real_of_int (int size' - 1)));
     yy_channel \<leftarrow> Some (div_scalar (to_float yy_channel) (real_of_int (int size' - 1)));
     xx_channel \<leftarrow> Some (sub_scalar (mul_scalar xx_channel 2) 1);
     yy_channel \<leftarrow> Some (sub_scalar (mul_scalar yy_channel 2) 1);
     cat [xx_channel, yy_channel] 1 }"

section \<open>Python lists and loops\<close>

text \<open>Indexing a list out of range raises \<open>IndexError\<close>; \<open>xs[-1]\<close> is the last element.
  A \<open>for\<close> loop over a range whose body may raise is a monadic fold over the indices
  (\<open>foldM\<close>), or a monadic map (\<open>mapM\<close>) when each iteration appends one result.\<close>

definition nth_opt :: "'a list \<Rightarrow> nat \<Rightarrow> 'a option" where
  "nth_opt xs i = (if i < length xs then Some (xs ! i) else None)"

definition last_opt :: "'a list \<Rightarrow> 'a option" where
  "last_opt xs = (if xs = [] then None else Some (last xs))"

fun foldM :: "('a \<Rightarrow> 's \<Rightarrow> 's option) \<Rightarrow> 'a list \<Rightarrow> 's \<Rightarrow> 's option" where
  "foldM f [] s = Some s"
| "foldM f (x # xs) s = do { s' \<leftarrow> f x s; foldM f xs s' }"

fun mapM :: "('a \<Rightarrow> 'b option) \<Rightarrow> 'a list \<Rightarrow> 'b list option" where
  "mapM f [] = Some []"
| "mapM f (x # xs) = do { y \<leftarrow> f x; ys \<leftarrow> mapM f xs; Some (y # ys) }"

section \<open>Layers\<close>

text \<open>
  The layers of the library are values: \<open>Conv2d in out kernel stride padding bias\<close>,
  \<open>BatchNorm2d features momentum\<close> (\<open>None\<close> when the call leaves the momentum at its
  default), \<open>ReLU inplace\<close>, \<open>Upsample scale\<close> (always in mode nearest) and
  \<open>Sequential\<close>. The two residual blocks of the program are objects with the fields
  their constructors set, in the order \<open>conv1 bn1 relu conv2 bn2 downsample stride\<close> for
  the basic block and \<open>conv1 bn1 conv2 bn2 conv3 bn3 relu downsample stride\<close> for the
  bottleneck.
\<close>

definition BN_MOMENTUM :: real where
  "BN_MOMENTUM = 0.1"

datatype layer =
    Conv2d nat nat nat nat nat bool
  | BatchNorm2d nat "real option"
  | ReLU bool
  | Upsample nat
  | Sequential "layer list"
  | BasicBlockObj layer layer layer layer layer "layer option" nat
  | BottleneckObj layer layer layer layer layer layer layer "layer option" nat

definition conv3x3 :: "nat \<Rightarrow> nat \<Rightarrow> nat \<Rightarrow> layer" where
  "conv3x3 in_planes out_planes stride = Conv2d in_planes out_planes 3 stride 1 False"

definition BasicBlock :: "nat \<Rightarrow> nat \<Rightarrow> nat \<Rightarrow> layer option \<Rightarrow> layer" where
  "BasicBlock inplanes planes stride downsample =
     BasicBlockObj
       (conv3x3 inplanes planes stride)
       (BatchNorm2d planes (Some BN_MOMENTUM))
       (ReLU True)
       (conv3x3 planes planes 1)
       (BatchNorm2d planes (Some BN_MOMENTUM))
       downsample
       stride"

definition Bottleneck :: "nat \<Rightarrow> nat \<Rightarrow> nat \<Rightarrow> layer option \<Rightarrow> layer" where
  "Bottleneck inplanes planes stride downsample =
     BottleneckObj
       (Conv2d inplanes planes 1 1 0 False)
       (BatchNorm2d planes (Some BN_MOMENTUM))
       (Conv2d planes planes 3 stride 1 False)
       (BatchNorm2d planes (Some BN_MOMENTUM))
       (Conv2d planes (planes * 4) 1 1 0 False)
       (BatchNorm2d (planes * 4) (Some BN_MOMENTUM))
       (ReLU True)
       downsample
       stride"

text \<open>The two block classes, as the values of \<open>blocks_dict\<close> and of the \<open>block\<close>
  parameters. \<open>new_block\<close> is the call \<open>block(inplanes, planes, stride, downsample)\<close>;
  \<open>new_block_BN\<close> is the call with the keyword \<open>BN=\<close>, which only the bottleneck's
  constructor accepts (the basic block's raises \<open>TypeError\<close>).\<close>

datatype block_class = BasicBlockC | BottleneckC

fun expansion :: "block_class \<Rightarrow> nat" where
  "expansion BasicBlockC = 1"
| "expansion BottleneckC = 4"

fun new_block :: "block_class \<Rightarrow> nat \<Rightarrow> nat \<Rightarrow> nat \<Rightarrow> layer option \<Rightarrow> layer" where
  "new_block BasicBlockC inplanes planes stride downsample =
     BasicBlock inplanes planes stride downsample"
| "new_block BottleneckC inplanes planes stride downsample =
     Bottleneck inplanes planes stride downsample"

fun new_block_BN :: "block_class \<Rightarrow> nat \<Rightarrow> nat \<Rightarrow> nat \<Rightarrow> layer option \<Rightarrow> layer option" where
  "new_block_BN BasicBlockC inplanes planes stride downsample = None"
| "new_block_BN BottleneckC inplanes planes stride downsample =
     Some (Bottleneck inplanes planes stride downsample)"

definition blocks_dict :: "string \<Rightarrow> block_class option" where
  "blocks_dict = [''BASIC'' \<mapsto> BasicBlockC, ''BOTTLENECK'' \<mapsto> BottleneckC]"

section \<open>The fusion module\<close>

text \<open>\<open>_make_one_branch\<close> reads and updates \<open>self.num_inchannels\<close>: the list is passed in
  and returned.\<close>

definition make_one_branch ::
  "nat list \<Rightarrow> nat \<Rightarrow> block_class \<Rightarrow> nat list \<Rightarrow> nat list \<Rightarrow> nat \<Rightarrow> (layer \<times> nat list) option" where
  "make_one_branch num_inchannels branch_index block num_blocks num_channels stride = do {
     inch \<leftarrow> nth_opt num_inchannels branch_index;
     ch \<leftarrow> nth_opt num_channels branch_index;
     downsample \<leftarrow> Some
       (if stride \<noteq> 1 \<or> inch \<noteq> ch * expansion block
        then Some (Sequential
               [Conv2d inch (ch * expansion block) 1 stride 0 False,
                BatchNorm2d (ch * expansion block) (Some BN_MOMENTUM)])
        else None);
     layers \<leftarrow> Some [new_block block inch ch stride downsample];
     num_inchannels \<leftarrow> Some (num_inchannels[branch_index := ch * expansion block]);
     n \<leftarrow> nth_opt num_blocks branch_index;
     inch \<leftarrow> nth_opt num_inchannels branch_index;
     layers \<leftarrow> Some (layers @ map (\<lambda>i. new_block block inch ch 1 None) [1..<n]);
     Some (Sequential layers, num_inchannels) }"

definition make_branches ::
  "nat list \<Rightarrow> nat \<Rightarrow> block_class \<Rightarrow> nat list \<Rightarrow> nat list \<Rightarrow> (layer list \<times> nat list) option" where
  "make_branches num_inchannels num_branches block num_blocks num_channels =
     foldM (\<lambda>i (branches, num_inchannels). do {
              (b, num_inchannels) \<leftarrow>
                make_one_branch num_inchannels i block num_blocks num_channels 1;
              Some (branches @ [b], num_inchannels) })
       [0..<num_branches] ([], num_inchannels)"

text \<open>\<open>_make_fuse_layers\<close> returns Python's \<open>None\<close> for a single branch (the inner
  \<open>option\<close>); the outer \<open>option\<close> is the \<open>IndexError\<close> of \<open>num_inchannels[j]\<close>.\<close>

definition make_fuse_layers ::
  "nat \<Rightarrow> nat list \<Rightarrow> bool \<Rightarrow> layer option list list option option" where
  "make_fuse_layers num_branches num_inchannels multi_scale_output =
     (if num_branches = 1 then Some None
      else do {
        fuse_layers \<leftarrow>
          mapM (\<lambda>i.
            mapM (\<lambda>j.
              if j > i then do {
                cj \<leftarrow> nth_opt num_inchannels j;
                ci \<leftarrow> nth_opt num_inchannels i;
                Some (Some (Sequential
                  [Conv2d cj ci 1 1 0 False, BatchNorm2d ci None, Upsample (2 ^ (j - i))])) }
              else if j = i then Some None
              else do {
                conv3x3s \<leftarrow>
                  mapM (\<lambda>k.
                    if k = i - j - 1 then do {
                      num_outchannels_conv3x3 \<leftarrow> nth_opt num_inchannels i;
                      cj \<leftarrow> nth_opt num_inchannels j;
                      Some (Sequential
                        [Conv2d cj num_outchannels_conv3x3 3 2 1 False,
                         BatchNorm2d num_outchannels_conv3x3 None]) }
                    else do {
                      num_outchannels_conv3x3 \<leftarrow> nth_opt num_inchannels j;
                      cj \<leftarrow> nth_opt num_inchannels j;
                      Some (Sequential
                        [Conv2d cj num_outchannels_conv3x3 3 2 1 False,
                         BatchNorm2d num_outchannels_conv3x3 None,
                         ReLU True]) })
                  [0..<i - j];
                Some (Some (Sequential conv3x3s)) })
            [0..<num_branches])
          [0..<(if multi_scale_output then num_branches else 1)];
        Some (Some fuse_layers) })"

text \<open>The object that \<open>HighResolutionModule.__init__\<close> builds. (Parameters that share a
  name with a field are written with a prime.)\<close>

record hr_module =
  num_inchannels :: "nat list"
  fuse_method :: string
  num_branches :: nat
  multi_scale_output :: bool
  branches :: "layer list"
  fuse_layers :: "layer option list list option"
  hrm_relu :: layer

definition HighResolutionModule ::
  "nat \<Rightarrow> block_class \<Rightarrow> nat list \<Rightarrow> nat list \<Rightarrow> nat list \<Rightarrow> string \<Rightarrow> bool \<Rightarrow> hr_module option" where
  "HighResolutionModule num_branches' blocks num_blocks num_inchannels' num_channels fuse_method'
       multi_scale_output' = do {
     (branches', num_inchannels') \<leftarrow>
       make_branches num_inchannels' num_branches' blocks num_blocks num_channels;
     fuse_layers' \<leftarrow> make_fuse_layers num_branches' num_inchannels' multi_scale_output';
     Some \<lparr>num_inchannels = num_inchannels',
           fuse_method = fuse_method',
           num_branches = num_branches',
           multi_scale_output = multi_scale_output',
           branches = branches',
           fuse_layers = fuse_layers',
           hrm_relu = ReLU True\<rparr> }"

definition get_num_inchannels :: "hr_module \<Rightarrow> nat list" where
  "get_num_inchannels m = num_inchannels m"

section \<open>The backbone\<close>

definition make_transition_layer :: "nat list \<Rightarrow> nat list \<Rightarrow> layer option list option" where
  "make_transition_layer num_channels_pre_layer num_channels_cur_layer = do {
     num_branches_cur \<leftarrow> Some (length num_channels_cur_layer);
     num_branches_pre \<leftarrow> Some (length num_channels_pre_layer);
     mapM (\<lambda>i.
       if i < num_branches_pre then
         (if num_channels_cur_layer ! i \<noteq> num_channels_pre_layer ! i
          then Some (Some (Sequential
                 [Conv2d (num_channels_pre_layer ! i) (num_channels_cur_layer ! i) 3 1 1 False,
                  BatchNorm2d (num_channels_cur_layer ! i) None,
                  ReLU True]))
          else Some None)
       else do {
         conv3x3s \<leftarrow>
           mapM (\<lambda>j. do {
             inchannels \<leftarrow> last_opt num_channels_pre_layer;
             outchannels \<leftarrow> Some
               (if j = i - num_branches_pre then num_channels_cur_layer ! i else inchannels);
             Some (Sequential
               [Conv2d inchannels outchannels 3 2 1 False,
                BatchNorm2d outchannels None,
                ReLU True]) })
           [0..<i + 1 - num_branches_pre];
         Some (Some (Sequential conv3x3s)) })
       [0..<num_branches_cur] }"

text \<open>\<open>_make_layer\<close> reads and updates \<open>self.inplanes\<close>, passed in and returned. It
  calls the block's constructor with the keyword \<open>BN=\<close>.\<close>

definition make_layer ::
  "nat \<Rightarrow> block_class \<Rightarrow> nat \<Rightarrow> nat \<Rightarrow> nat \<Rightarrow> (layer \<times> nat) option" where
  "make_layer inplanes block planes blocks stride = do {
     downsample \<leftarrow> Some
       (if stride \<noteq> 1 \<or> inplanes \<noteq> planes * expansion block
        then Some (Sequential
               [Conv2d inplanes (planes * expansion block) 1 stride 0 False,
                BatchNorm2d (planes * expansion block) (Some BN_MOMENTUM)])
        else None);
     first \<leftarrow> new_block_BN block inplanes planes stride downsample;
     inplanes \<leftarrow> Some (planes * expansion block);
     rest \<leftarrow> mapM (\<lambda>i. new_block_BN block inplanes planes 1 None) [1..<blocks];
     Some (Sequential (first # rest), inplanes) }"

record layer_config =
  NUM_MODULES :: nat
  NUM_BRANCHES :: nat
  BLOCK :: string
  NUM_BLOCKS :: "nat list"
  NUM_CHANNELS :: "nat list"
  FUSE_METHOD :: string

definition make_stage ::
  "layer_config \<Rightarrow> nat list \<Rightarrow> bool \<Rightarrow> (hr_module list \<times> nat list) option" where
  "make_stage layer_config num_inchannels' multi_scale_output' = do {
     num_modules \<leftarrow> Some (NUM_MODULES layer_config);
     num_branches' \<leftarrow> Some (NUM_BRANCHES layer_config);
     num_blocks \<leftarrow> Some (NUM_BLOCKS layer_config);
     num_channels \<leftarrow> Some (NUM_CHANNELS layer_config);
     block \<leftarrow> blocks_dict (BLOCK layer_config);
     fuse_method' \<leftarrow> Some (FUSE_METHOD layer_config);
     foldM (\<lambda>i (modules, num_inchannels'). do {
              reset_multi_scale_output \<leftarrow> Some
                (if \<not> multi_scale_output' \<and> i = num_modules - 1 then False else True);
              m \<leftarrow> HighResolutionModule num_branches' block num_blocks num_inchannels'
                     num_channels fuse_method' reset_multi_scale_output;
              Some (modules @ [m], get_num_inchannels m) })
       [0..<num_modules] ([], num_inchannels') }"

text \<open>The fields that \<open>make_baseline\<close> sets, \<open>self.inplanes\<close> among them (it is 64
  when \<open>__init__\<close> calls \<open>make_baseline\<close>), and the object that
  \<open>HigherResolutionNet.__init__\<close> completes with \<open>backbone_channels\<close>.\<close>

record baseline =
  inplanes :: nat
  conv1 :: layer
  bn1 :: layer
  conv2 :: layer
  bn2 :: layer
  relu :: layer
  layer1 :: layer
  stage2_cfg :: layer_config
  transition1 :: "layer option list"
  stage2 :: "hr_module list"
  stage3_cfg :: layer_config
  transition2 :: "layer option list"
  stage3 :: "hr_module list"
  stage4_cfg :: layer_config
  transition3 :: "layer option list"
  stage4 :: "hr_module list"

record hr_net = baseline +
  backbone_channels :: nat

definition make_baseline :: "nat \<Rightarrow> baseline option" where
  "make_baseline inplanes' = do {
     (l1, inplanes') \<leftarrow> make_layer inplanes' BottleneckC 64 4 1;

     cfg2 \<leftarrow> Some \<lparr>NUM_MODULES = 1, NUM_BRANCHES = 2, BLOCK = ''BASIC'',
                     NUM_BLOCKS = [4, 4], NUM_CHANNELS = [32, 64], FUSE_METHOD = ''SUM''\<rparr>;
     num_channels \<leftarrow> Some (NUM_CHANNELS cfg2);
     block \<leftarrow> blocks_dict (BLOCK cfg2);
     num_channels \<leftarrow> Some
       (map (\<lambda>i. num_channels ! i * expansion block) [0..<length num_channels]);
     t1 \<leftarrow> make_transition_layer [256] num_channels;
     (s2, pre_stage_channels) \<leftarrow> make_stage cfg2 num_channels True;

     cfg3 \<leftarrow> Some \<lparr>NUM_MODULES = 4, NUM_BRANCHES = 3, BLOCK = ''BASIC'',
                     NUM_BLOCKS = [4, 4, 4], NUM_CHANNELS = [32, 64, 128],
                     FUSE_METHOD = ''SUM''\<rparr>;
     num_channels \<leftarrow> Some (NUM_CHANNELS cfg3);
     block \<leftarrow> blocks_dict (BLOCK cfg3);
     num_channels \<leftarrow> Some
       (map (\<lambda>i. num_channels ! i * expansion block) [0..<length num_channels]);
     t2 \<leftarrow> make_transition_layer pre_stage_channels num_channels;
     (s3, pre_stage_channels) \<leftarrow> make_stage cfg3 num_channels True;

     cfg4 \<leftarrow> Some \<lparr>NUM_MODULES = 3, NUM_BRANCHES = 4, BLOCK = ''BASIC'',
                     NUM_BLOCKS = [4, 4, 4, 4], NUM_CHANNELS = [32, 64, 128, 256],
                     FUSE_METHOD = ''SUM''\<rparr>;
     num_channels \<leftarrow> Some (NUM_CHANNELS cfg4);
     block \<leftarrow> blocks_dict (BLOCK cfg4);
     num_channels \<leftarrow> Some
       (map (\<lambda>i. num_channels ! i * expansion block) [0..<length num_channels]);
     t3 \<leftarrow> make_transition_layer pre_stage_channels num_channels;
     (s4, pre_stage_channels) \<leftarrow> make_stage cfg4 num_channels False;

     Some \<lparr>inplanes = inplanes',
           conv1 = Conv2d 3 64 3 2 1 False,
           bn1 = BatchNorm2d 64 (Some BN_MOMENTUM),
           conv2 = Conv2d 64 64 3 2 1 False,
           bn2 = BatchNorm2d 64 (Some BN_MOMENTUM),
           relu = ReLU True,
           layer1 = l1,
           stage2_cfg = cfg2, transition1 = t1, stage2 = s2,
           stage3_cfg = cfg3, transition2 = t2, stage3 = s3,
           stage4_cfg = cfg4, transition3 = t3, stage4 = s4\<rparr> }"

definition HigherResolutionNet :: "hr_net option" where
  "HigherResolutionNet = do {
     b \<leftarrow> make_baseline 64;
     Some (baseline.extend b (hr_net.fields 32)) }"

section \<open>The head\<close>

text \<open>\<open>head_cfg\<close> and \<open>output_cfg\<close> are dictionaries from names to numbers; a missing
  key is a \<open>KeyError\<close>.\<close>

definition make_head_layers :: "(string \<rightharpoonup> nat) \<Rightarrow> nat \<Rightarrow> nat \<Rightarrow> layer option" where
  "make_head_layers head_cfg input_channels output_channels = do {
     num_channels \<leftarrow> head_cfg ''NUM_CHANNELS'';
     head_layers \<leftarrow> Some
       [Sequential
          [Conv2d input_channels num_channels 3 2 1 True,
           BatchNorm2d num_channels (Some BN_MOMENTUM),
           ReLU True]];
     num_heads \<leftarrow> head_cfg ''NUM_HEADS'';
     head_layers \<leftarrow>
       foldM (\<lambda>i head_layers. do {
                num_basic_blocks \<leftarrow> head_cfg ''NUM_BASIC_BLOCKS'';
                layers \<leftarrow> Some
                  (map (\<lambda>_. Sequential [BasicBlock num_channels num_channels 1 None])
                     [0..<num_basic_blocks]);
                Some (head_layers @ [Sequential layers]) })
         [0..<num_heads] head_layers;
     head_layers \<leftarrow> Some (head_layers @ [Conv2d num_channels output_channels 1 1 0 True]);
     Some (Sequential head_layers) }"

definition make_final_layers ::
  "(string \<rightharpoonup> nat) \<Rightarrow> (string \<rightharpoonup> nat) \<Rightarrow> nat \<Rightarrow> layer option list option" where
  "make_final_layers head_cfg output_cfg input_channels = do {
     final_layers \<leftarrow> Some [None];
     input_channels \<leftarrow> Some (input_channels + 2);
     n \<leftarrow> output_cfg ''NUM_PARAMS_MAP'';
     l \<leftarrow> make_head_layers head_cfg input_channels n;
     final_layers \<leftarrow> Some (final_layers @ [Some l]);
     n \<leftarrow> output_cfg ''NUM_CENTER_MAP'';
     l \<leftarrow> make_head_layers head_cfg input_channels n;
     final_layers \<leftarrow> Some (final_layers @ [Some l]);
     n \<leftarrow> output_cfg ''NUM_CAM_MAP'';
     l \<leftarrow> make_head_layers head_cfg input_channels n;
     final_layers \<leftarrow> Some (final_layers @ [Some l]);
     Some final_layers }"

record romp =
  backbone :: hr_net
  outmap_size :: nat
  head_cfg :: "string \<rightharpoonup> nat"
  output_cfg :: "string \<rightharpoonup> nat"
  final_layers :: "layer option list"
  coordmaps :: "fval tensor"

text \<open>\<open>ROMPv1.__init__\<close> with \<open>_build_head\<close>.\<close>

definition ROMPv1 :: "romp option" where
  "ROMPv1 = do {
     net \<leftarrow> HigherResolutionNet;
     (params_num, cam_dim) \<leftarrow> Some (3 + 22 * 6 + 10, 3);
     head_cfg' \<leftarrow> Some [''NUM_HEADS'' \<mapsto> 1, ''NUM_CHANNELS'' \<mapsto> 64, ''NUM_BASIC_BLOCKS'' \<mapsto> 2];
     output_cfg' \<leftarrow> Some [''NUM_PARAMS_MAP'' \<mapsto> params_num - cam_dim,
                          ''NUM_CENTER_MAP'' \<mapsto> 1,
                          ''NUM_CAM_MAP'' \<mapsto> cam_dim];
     fl \<leftarrow> make_final_layers head_cfg' output_cfg' (backbone_channels net);
     cm \<leftarrow> get_coord_maps 128;
     Some \<lparr>backbone = net, outmap_size = 64, head_cfg = head_cfg', output_cfg = output_cfg',
           final_layers = fl, coordmaps = cm\<rparr> }"

section \<open>Forward passes\<close>

text \<open>
  The forward passes are written once, over the operations of the tensor library that
  they call. \<open>nn_call\<close> is the forward pass of a library layer (\<open>Conv2d\<close>,
  \<open>BatchNorm2d\<close>, \<open>ReLU\<close>, \<open>Upsample\<close>); the other fields are the tensor
  operations of the same names, \<open>t_size0 x\<close> is \<open>x.shape[0]\<close>, \<open>t_select x d i\<close> and
  \<open>t_assign_select x d i v\<close> read and write the slice \<open>x[:, i]\<close> (for \<open>d = 1\<close>), and
  \<open>t_const\<close> brings a constant tensor into the domain. In-place operations
  (\<open>inplace=True\<close>, \<open>+=\<close>, slice assignment) act on tensors that the same function has
  just created, so they are their functional counterparts here; \<open>.contiguous()\<close> and
  \<open>.to(device)\<close> change where a tensor is stored and nothing else.
\<close>

record 't torch =
  nn_call :: "layer \<Rightarrow> 't \<Rightarrow> 't option"
  t_add :: "'t \<Rightarrow> 't \<Rightarrow> 't option"
  t_iadd :: "'t \<Rightarrow> 't \<Rightarrow> 't option"
  t_cat :: "'t list \<Rightarrow> int \<Rightarrow> 't option"
  t_unsqueeze :: "'t \<Rightarrow> int \<Rightarrow> 't option"
  t_transpose :: "'t \<Rightarrow> int \<Rightarrow> int \<Rightarrow> 't option"
  t_squeeze :: "'t \<Rightarrow> int \<Rightarrow> 't option"
  t_div_scalar :: "'t \<Rightarrow> real \<Rightarrow> 't"
  t_mul_scalar :: "'t \<Rightarrow> real \<Rightarrow> 't"
  t_sub_scalar :: "'t \<Rightarrow> real \<Rightarrow> 't"
  t_size0 :: "'t \<Rightarrow> nat option"
  t_repeat :: "'t \<Rightarrow> nat list \<Rightarrow> 't option"
  t_select :: "'t \<Rightarrow> nat \<Rightarrow> nat \<Rightarrow> 't option"
  t_assign_select :: "'t \<Rightarrow> nat \<Rightarrow> nat \<Rightarrow> 't \<Rightarrow> 't option"
  t_pow_base :: "real \<Rightarrow> 't \<Rightarrow> 't"
  t_const :: "fval tensor \<Rightarrow> 't"

definition BHWC_to_BCHW :: "'t torch \<Rightarrow> 't \<Rightarrow> 't option" where
  "BHWC_to_BCHW T x = do {
     x \<leftarrow> t_unsqueeze T x 1;
     x \<leftarrow> t_transpose T x 1 (-1);
     t_squeeze T x (-1) }"

text \<open>Calling a module: \<open>Sequential\<close> runs its layers in order, the two blocks run their
  \<open>forward\<close>, a library layer runs \<open>nn_call\<close>.\<close>

fun call :: "'t torch \<Rightarrow> layer \<Rightarrow> 't \<Rightarrow> 't option"
  and call_seq :: "'t torch \<Rightarrow> layer list \<Rightarrow> 't \<Rightarrow> 't option" where
  "call T (Sequential ls) x = call_seq T ls x"
| "call T (BasicBlockObj conv1' bn1' relu' conv2' bn2' downsample stride) x = do {
     residual \<leftarrow> Some x;
     out \<leftarrow> call T conv1' x;
     out \<leftarrow> call T bn1' out;
     out \<leftarrow> call T relu' out;
     out \<leftarrow> call T conv2' out;
     out \<leftarrow> call T bn2' out;
     residual \<leftarrow> (case downsample of None \<Rightarrow> Some residual | Some d \<Rightarrow> call T d x);
     out \<leftarrow> t_iadd T out residual;
     call T relu' out }"
| "call T (BottleneckObj conv1' bn1' conv2' bn2' conv3' bn3' relu' downsample stride) x = do {
     residual \<leftarrow> Some x;
     out \<leftarrow> call T conv1' x;
     out \<leftarrow> call T bn1' out;
     out \<leftarrow> call T relu' out;
     out \<leftarrow> call T conv2' out;
     out \<leftarrow> call T bn2' out;
     out \<leftarrow> call T relu' out;
     out \<leftarrow> call T conv3' out;
     out \<leftarrow> call T bn3' out;
     residual \<leftarrow> (case downsample of None \<Rightarrow> Some residual | Some d \<Rightarrow> call T d x);
     out \<leftarrow> t_iadd T out residual;
     call T relu' out }"
| "call T (Conv2d i o' k s p b) x = nn_call T (Conv2d i o' k s p b) x"
| "call T (BatchNorm2d c m) x = nn_call T (BatchNorm2d c m) x"
| "call T (ReLU ip) x = nn_call T (ReLU ip) x"
| "call T (Upsample f) x = nn_call T (Upsample f) x"
| "call_seq T [] x = Some x"
| "call_seq T (l # ls) x = do { y \<leftarrow> call T l x; call_seq T ls y }"

text \<open>Calling an entry of a module list that may hold Python's \<open>None\<close>: calling \<open>None\<close>
  raises \<open>TypeError\<close>.\<close>

definition call_opt :: "'t torch \<Rightarrow> layer option \<Rightarrow> 't \<Rightarrow> 't option" where
  "call_opt T l x = (case l of None \<Rightarrow> None | Some l' \<Rightarrow> call T l' x)"

definition HighResolutionModule_forward :: "'t torch \<Rightarrow> hr_module \<Rightarrow> 't list \<Rightarrow> 't list option" where
  "HighResolutionModule_forward T self x =
     (if num_branches self = 1 then do {
        b \<leftarrow> nth_opt (branches self) 0;
        x0 \<leftarrow> nth_opt x 0;
        y \<leftarrow> call T b x0;
        Some [y] }
      else do {
        x \<leftarrow> foldM (\<lambda>i x. do {
                b \<leftarrow> nth_opt (branches self) i;
                xi \<leftarrow> nth_opt x i;
                y \<leftarrow> call T b xi;
                Some (x[i := y]) })
              [0..<num_branches self] x;
        fl \<leftarrow> fuse_layers self;
        mapM (\<lambda>i. do {
                y \<leftarrow> (if i = 0 then nth_opt x 0
                       else do {
                         row \<leftarrow> nth_opt fl i;
                         f \<leftarrow> nth_opt row 0;
                         x0 \<leftarrow> nth_opt x 0;
                         call_opt T f x0 });
                y \<leftarrow> foldM (\<lambda>j y.
                        if i = j then do {
                          xj \<leftarrow> nth_opt x j;
                          t_add T y xj }
                        else do {
                          row \<leftarrow> nth_opt fl i;
                          f \<leftarrow> nth_opt row j;
                          xj \<leftarrow> nth_opt x j;
                          z \<leftarrow> call_opt T f xj;
                          t_add T y z })
                      [1..<num_branches self] y;
                call T (hrm_relu self) y })
          [0..<length fl] })"

text \<open>A stage is the \<open>Sequential\<close> of its fusion modules.\<close>

definition stage_forward :: "'t torch \<Rightarrow> hr_module list \<Rightarrow> 't list \<Rightarrow> 't list option" where
  "stage_forward T modules x = foldM (\<lambda>m x. HighResolutionModule_forward T m x) modules x"

text \<open>\<open>HigherResolutionNet.forward\<close>: its first statement, and the statements after it.\<close>

definition normalize_input :: "'t torch \<Rightarrow> 't \<Rightarrow> 't option" where
  "normalize_input T x = do {
     x \<leftarrow> BHWC_to_BCHW T x;
     Some (t_sub_scalar T (t_mul_scalar T (t_div_scalar T x 255) 2) 1) }"

definition HigherResolutionNet_stem_stages :: "'t torch \<Rightarrow> hr_net \<Rightarrow> 't \<Rightarrow> 't option" where
  "HigherResolutionNet_stem_stages T self x = do {
     x \<leftarrow> call T (conv1 self) x;
     x \<leftarrow> call T (bn1 self) x;
     x \<leftarrow> call T (relu self) x;
     x \<leftarrow> call T (conv2 self) x;
     x \<leftarrow> call T (bn2 self) x;
     x \<leftarrow> call T (relu self) x;
     x \<leftarrow> call T (layer1 self) x;

     x_list \<leftarrow> mapM (\<lambda>i. do {
         t \<leftarrow> nth_opt (transition1 self) i;
         (case t of Some l \<Rightarrow> call T l x | None \<Rightarrow> Some x) })
       [0..<NUM_BRANCHES (stage2_cfg self)];
     y_list \<leftarrow> stage_forward T (stage2 self) x_list;

     x_list \<leftarrow> mapM (\<lambda>i. do {
         t \<leftarrow> nth_opt (transition2 self) i;
         (case t of Some l \<Rightarrow> do { y \<leftarrow> last_opt y_list; call T l y }
                  | None \<Rightarrow> nth_opt y_list i) })
       [0..<NUM_BRANCHES (stage3_cfg self)];
     y_list \<leftarrow> stage_forward T (stage3 self) x_list;

     x_list \<leftarrow> mapM (\<lambda>i. do {
         t \<leftarrow> nth_opt (transition3 self) i;
         (case t of Some l \<Rightarrow> do { y \<leftarrow> last_opt y_list; call T l y }
                  | None \<Rightarrow> nth_opt y_list i) })
       [0..<NUM_BRANCHES (stage4_cfg self)];
     y_list \<leftarrow> stage_forward T (stage4 self) x_list;
     nth_opt y_list 0 }"

definition HigherResolutionNet_forward :: "'t torch \<Rightarrow> hr_net \<Rightarrow> 't \<Rightarrow> 't option" where
  "HigherResolutionNet_forward T self x = do {
     x \<leftarrow> normalize_input T x;
     HigherResolutionNet_stem_stages T self x }"

definition ROMPv1_forward :: "'t torch \<Rightarrow> romp \<Rightarrow> 't \<Rightarrow> ('t \<times> 't) option" where
  "ROMPv1_forward T self image' = do {
     x \<leftarrow> HigherResolutionNet_forward T (backbone self) image';
     b \<leftarrow> t_size0 T x;
     c \<leftarrow> t_repeat T (t_const T (coordmaps self)) [b, 1, 1, 1];
     x \<leftarrow> t_cat T [x, c] 1;

     l \<leftarrow> nth_opt (final_layers self) 1;
     params_maps \<leftarrow> call_opt T l x;
     l \<leftarrow> nth_opt (final_layers self) 2;
     center_maps \<leftarrow> call_opt T l x;
     l \<leftarrow> nth_opt (final_layers self) 3;
     cam_maps \<leftarrow> call_opt T l x;
     s \<leftarrow> t_select T cam_maps 1 0;
     cam_maps \<leftarrow> t_assign_select T cam_maps 1 0 (t_pow_base T 1.1 s);
     params_maps \<leftarrow> t_cat T [cam_maps, params_maps] 1;
     Some (center_maps, params_maps) }"

section \<open>Two interpretations of the library\<close>

text \<open>
  In the first a tensor is its shape. The shape rules are the library's: a convolution
  needs its input channels, a positive stride and a padded input no smaller than the
  kernel, and maps a spatial size \<open>h\<close> to \<open>(h + 2p - k) div s + 1\<close>; it takes a batch
  \<open>[B, C, H, W]\<close> or a single \<open>[C, H, W]\<close>. Batch normalisation (with frozen statistics)
  needs four dimensions and its channel count. Nearest upsampling multiplies the spatial
  sizes of a tensor with three to five dimensions.
\<close>

definition conv_out :: "nat \<Rightarrow> nat \<Rightarrow> nat \<Rightarrow> nat \<Rightarrow> nat option" where
  "conv_out h k s p = (if s = 0 \<or> h + 2 * p < k then None else Some ((h + 2 * p - k) div s + 1))"

fun nn_shape :: "layer \<Rightarrow> nat list \<Rightarrow> nat list option" where
  "nn_shape (Conv2d cin cout k s p b) sh =
     (case sh of
        [B, C, H, W] \<Rightarrow>
          (if C = cin then do { h \<leftarrow> conv_out H k s p; w \<leftarrow> conv_out W k s p; Some [B, cout, h, w] }
           else None)
      | [C, H, W] \<Rightarrow>
          (if C = cin then do { h \<leftarrow> conv_out H k s p; w \<leftarrow> conv_out W k s p; Some [cout, h, w] }
           else None)
      | _ \<Rightarrow> None)"
| "nn_shape (BatchNorm2d c m) sh =
     (case sh of [B, C, H, W] \<Rightarrow> (if C = c then Some sh else None) | _ \<Rightarrow> None)"
| "nn_shape (ReLU ip) sh = Some sh"
| "nn_shape (Upsample f) sh =
     (if 3 \<le> length sh \<and> length sh \<le> 5 \<and> list_all (\<lambda>n. 0 < n * f) (drop 2 sh)
      then Some (take 2 sh @ map (\<lambda>n. n * f) (drop 2 sh))
      else None)"
| "nn_shape _ sh = None"

definition shape_ops :: "nat list torch" where
  "shape_ops =
     \<lparr>nn_call = nn_shape,
      t_add = broadcast_shapes,
      t_iadd = (\<lambda>a b. do { r \<leftarrow> broadcast_shapes a b; if r = a then Some r else None }),
      t_cat = cat_shape,
      t_unsqueeze = unsqueeze_shape,
      t_transpose = transpose_shape,
      t_squeeze = squeeze_shape,
      t_div_scalar = (\<lambda>s c. s),
      t_mul_scalar = (\<lambda>s c. s),
      t_sub_scalar = (\<lambda>s c. s),
      t_size0 = (\<lambda>s. nth_opt s 0),
      t_repeat = repeat_shape,
      t_select = select_shape,
      t_assign_select = (\<lambda>s d i v. do {
         sel \<leftarrow> select_shape s d i;
         b \<leftarrow> broadcast_shapes v sel;
         if b = sel then Some s else None }),
      t_pow_base = (\<lambda>b s. s),
      t_const = shape\<rparr>"

text \<open>In the second a tensor has its entries. What a library layer computes depends on
  learned weights that the program loads from a file: it is the parameter \<open>prim\<close>.\<close>

definition val_ops :: "(layer \<Rightarrow> fval tensor \<Rightarrow> fval tensor option) \<Rightarrow> fval tensor torch" where
  "val_ops prim =
     \<lparr>nn_call = prim,
      t_add = add,
      t_iadd = iadd,
      t_cat = cat,
      t_unsqueeze = unsqueeze,
      t_transpose = transpose_t,
      t_squeeze = squeeze,
      t_div_scalar = div_scalar,
      t_mul_scalar = mul_scalar,
      t_sub_scalar = sub_scalar,
      t_size0 = (\<lambda>x. nth_opt (shape x) 0),
      t_repeat = repeat,
      t_select = select,
      t_assign_select = assign_select,
      t_pow_base = pow_base,
      t_const = (\<lambda>c. c)\<rparr>"

section \<open>Residual blocks: what a block holds and what it adds\<close>










section \<open>The fusion rule in the words of the specification\<close>

text \<open>
  The layer that resamples source branch \<open>j\<close> for target branch \<open>i\<close>, given the channel
  counts \<open>c\<close> of the branches: a 1x1 projection and an upsampling for a lower resolution,
  nothing for the branch itself, a cascade of \<open>i - j\<close> stride-2 3x3 convolutions for a
  higher resolution.
\<close>

definition fuse_layer_at :: "nat list \<Rightarrow> nat \<Rightarrow> nat \<Rightarrow> layer option" where
  "fuse_layer_at c i j =
     (if j > i then
        Some (Sequential [Conv2d (c ! j) (c ! i) 1 1 0 False, BatchNorm2d (c ! i) None,
                          Upsample (2 ^ (j - i))])
      else if j = i then None
      else Some (Sequential (map (\<lambda>k.
             if k = i - j - 1
             then Sequential [Conv2d (c ! j) (c ! i) 3 2 1 False, BatchNorm2d (c ! i) None]
             else Sequential [Conv2d (c ! j) (c ! j) 3 2 1 False, BatchNorm2d (c ! j) None,
                              ReLU True]) [0..<i - j])))"

text \<open>
  The fused output for target \<open>i\<close>, from the outputs \<open>ys\<close> of the branches: the
  contribution of source \<open>j\<close> is the branch output itself for \<open>j = i\<close> and the resampled
  branch output otherwise; the contributions are summed from branch 0 on, and the sum is
  activated.
\<close>

definition fuse_contribution :: "'t torch \<Rightarrow> hr_module \<Rightarrow> 't list \<Rightarrow> nat \<Rightarrow> nat \<Rightarrow> 't option" where
  "fuse_contribution T m ys i j =
     (if j = i then nth_opt ys j
      else do {
        fl \<leftarrow> fuse_layers m;
        row \<leftarrow> nth_opt fl i;
        f \<leftarrow> nth_opt row j;
        y \<leftarrow> nth_opt ys j;
        call_opt T f y })"

fun fuse_sum :: "'t torch \<Rightarrow> 't list \<Rightarrow> 't option" where
  "fuse_sum T [] = None"
| "fuse_sum T (c # cs) = foldM (\<lambda>z y. t_add T y z) cs c"

definition fused_output :: "'t torch \<Rightarrow> hr_module \<Rightarrow> 't list \<Rightarrow> nat \<Rightarrow> 't option" where
  "fused_output T m ys i = do {
     cs \<leftarrow> mapM (fuse_contribution T m ys i) [0..<num_branches m];
     y \<leftarrow> fuse_sum T cs;
     call T (hrm_relu m) y }"

definition branch_outputs :: "'t torch \<Rightarrow> hr_module \<Rightarrow> 't list \<Rightarrow> 't list option" where
  "branch_outputs T m xs =
     mapM (\<lambda>j. do { b \<leftarrow> nth_opt (branches m) j; x \<leftarrow> nth_opt xs j; call T b x })
       [0..<num_branches m]"

section \<open>The coordinate map: properties\<close>

lemmas coord_defs = get_coord_maps_def unsqueeze_def unsqueeze_shape_def wrap_dim_def ones_def
  arange_def matmul_def matmul_shape_def bdim_def permute_def permute_shape_def to_float_def
  div_scalar_def mul_scalar_def sub_scalar_def cat_def cat_shape_def

lemma get_coord_maps_Some: "get_coord_maps N \<noteq> None"
  by (simp add: coord_defs)


lemma get_coord_maps_xx:
  "c < N \<Longrightarrow> elem (the (get_coord_maps N)) [0, 0, r, c] =
     fsub_scalar (fmul_scalar (fdiv_scalar (Fin (real c)) (real_of_int (int N - 1))) 2) 1"
  by (simp add: coord_defs)

lemma get_coord_maps_yy:
  "r < N \<Longrightarrow> elem (the (get_coord_maps N)) [0, 1, r, c] =
     fsub_scalar (fmul_scalar (fdiv_scalar (Fin (real r)) (real_of_int (int N - 1))) 2) 1"
  by (simp add: coord_defs)

lemma coord_value:
  "2 \<le> N \<Longrightarrow>
   fsub_scalar (fmul_scalar (fdiv_scalar (Fin (real c)) (real_of_int (int N - 1))) 2) 1
     = Fin (real c / (real N - 1) * 2 - 1)"
  by simp




text \<open>
  Claim C10. \<open>get_coord_maps\<close> divides by \<open>size - 1\<close>: for \<open>size = 1\<close> both entries are
  \<open>0 / 0\<close>, not a number, and in general an entry of the map is a finite value in
  \<open>[-1, 1]\<close> exactly when \<open>size \<ge> 2\<close>.
\<close>

theorem get_coord_maps_needs_size_2:
  assumes "r < N" "c < N"
  shows "get_coord_maps N \<noteq> None
     \<and> ((\<exists>x. elem (the (get_coord_maps N)) [0, 0, r, c] = Fin x \<and> - 1 \<le> x \<and> x \<le> 1)
          \<longleftrightarrow> 2 \<le> N)
     \<and> ((\<exists>y. elem (the (get_coord_maps N)) [0, 1, r, c] = Fin y \<and> - 1 \<le> y \<and> y \<le> 1)
          \<longleftrightarrow> 2 \<le> N)
     \<and> (N = 1 \<longrightarrow> elem (the (get_coord_maps N)) [0, 0, r, c] = NaN
                \<and> elem (the (get_coord_maps N)) [0, 1, r, c] = NaN)"
proof (cases "2 \<le> N")
  case True
  have b: "- 1 \<le> real k / (real N - 1) * 2 - 1 \<and> real k / (real N - 1) * 2 - 1 \<le> 1"
    if "k < N" for k
  proof -
    define q where "q = real k / (real N - 1)"
    have "0 < real N - 1" using True by simp
    moreover have "real k \<le> real N - 1" using that by linarith
    ultimately have "0 \<le> q" "q \<le> 1"
      by (simp_all add: q_def)
    then have "- 1 \<le> q * 2 - 1 \<and> q * 2 - 1 \<le> 1" by simp
    then show ?thesis by (simp only: q_def)
  qed
  show ?thesis
    using True assms b [OF assms(1)] b [OF assms(2)]
      get_coord_maps_xx [OF assms(2), of r] get_coord_maps_yy [OF assms(1), of c]
      coord_value [OF True] get_coord_maps_Some [of N]
    by simp
next
  case False
  then have "N = 1" using assms by linarith
  then show ?thesis
    using get_coord_maps_xx [OF assms(2), of r] get_coord_maps_yy [OF assms(1), of c]
      get_coord_maps_Some [of N] assms
    by simp
qed

theorem get_coord_maps_needs_size_2_witness:
  "(0::nat) < 1 \<and> get_coord_maps 1 \<noteq> None
   \<and> \<not> (\<exists>x. elem (the (get_coord_maps 1)) [0, 0, 0, 0] = Fin x \<and> - 1 \<le> x \<and> x \<le> 1)
   \<and> elem (the (get_coord_maps 1)) [0, 1, 0, 0] = NaN"
  using get_coord_maps_needs_size_2 [of 0 1 0] by simp

section \<open>The fusion module: properties\<close>

subsection \<open>Loops\<close>

lemma foldM_append: "foldM f (xs @ ys) s = do { s' \<leftarrow> foldM f xs s; foldM f ys s' }"
  by (induction xs arbitrary: s) (auto split: bind_splits)

lemma foldM_single: "foldM f [x] s = f x s"
  by (cases "f x s") simp_all

lemma foldM_upt_Suc: "foldM f [0..<Suc n] s = do { s' \<leftarrow> foldM f [0..<n] s; f n s' }"
proof -
  have "foldM f [n] = f n" by (rule ext) (rule foldM_single)
  then show ?thesis by (simp add: foldM_append)
qed

lemma mapM_append:
  "mapM f (xs @ ys) = do { as \<leftarrow> mapM f xs; bs \<leftarrow> mapM f ys; Some (as @ bs) }"
  by (induction xs) (auto split: bind_splits)

lemma mapM_Some_length: "mapM f xs = Some ys \<Longrightarrow> length ys = length xs"
  by (induction xs arbitrary: ys) (auto split: bind_splits)

lemma mapM_Some_nth: "mapM f xs = Some ys \<Longrightarrow> i < length xs \<Longrightarrow> f (xs ! i) = Some (ys ! i)"
proof (induction xs arbitrary: ys i)
  case Nil
  then show ?case by simp
next
  case (Cons x xs)
  then show ?case by (cases i) (auto split: bind_splits)
qed

lemma mapM_map: "(\<And>x. x \<in> set xs \<Longrightarrow> f x = Some (g x)) \<Longrightarrow> mapM f xs = Some (map g xs)"
  by (induction xs) auto

lemma mapM_cong: "(\<And>x. x \<in> set xs \<Longrightarrow> f x = g x) \<Longrightarrow> mapM f xs = mapM g xs"
  by (induction xs) auto

lemma foldM_cong: "(\<And>x s. x \<in> set xs \<Longrightarrow> f x s = g x s) \<Longrightarrow> foldM f xs s = foldM g xs s"
proof (induction xs arbitrary: s)
  case Nil
  then show ?case by simp
next
  case (Cons a xs)
  then show ?case by (cases "g a s") simp_all
qed

lemma bind_commute_option:
  "(do { a \<leftarrow> A; b \<leftarrow> B; F a b }) = (do { b \<leftarrow> (B::'b option); a \<leftarrow> (A::'a option); (F a b :: 'c option) })"
  by (cases A; cases B) auto

lemma foldM_add_mapM:
  "foldM (\<lambda>j y. do { z \<leftarrow> g j; h y z }) js y0 =
     do { zs \<leftarrow> mapM g js; foldM (\<lambda>z y. h y z) zs y0 }"
proof (induction js arbitrary: y0)
  case Nil
  then show ?case by simp
next
  case (Cons j js)
  show ?case
  proof (cases "g j")
    case None
    then show ?thesis by simp
  next
    case (Some z)
    show ?thesis
    proof (cases "h y0 z")
      case None
      then show ?thesis using Some by (cases "mapM g js") auto
    next
      case (Some y1)
      then show ?thesis using \<open>g j = Some z\<close> Cons.IH [of y1]
        by (cases "mapM g js") auto
    qed
  qed
qed

subsection \<open>Branches\<close>

lemma make_one_branch_Some:
  assumes "make_one_branch nin i blk nbl nch st = Some (b, nin')"
  shows "i < length nin \<and> i < length nch \<and> i < length nbl \<and> nin' = nin[i := nch ! i * expansion blk]"
  using assms
  by (auto simp: make_one_branch_def nth_opt_def split: bind_splits if_splits)

lemma make_one_branch_state:
  "nin ! i = nin2 ! i \<Longrightarrow> length nin = length nin2 \<Longrightarrow>
   map_option fst (make_one_branch nin i blk nbl nch st) = map_option fst (make_one_branch nin2 i blk nbl nch st)"
  by (auto simp: make_one_branch_def nth_opt_def split: bind_splits if_splits)

lemma make_branches_Suc:
  "make_branches nin (Suc n) blk nbl nch = do {
     (bs, nin1) \<leftarrow> make_branches nin n blk nbl nch;
     (b, nin2) \<leftarrow> make_one_branch nin1 n blk nbl nch 1;
     Some (bs @ [b], nin2) }"
  unfolding make_branches_def foldM_upt_Suc
  by (rule Option.bind_cong) (auto simp: split_def)

lemma make_branches_0: "make_branches nin 0 blk nbl nch = Some ([], nin)"
  by (simp add: make_branches_def)

lemma make_branches_Some:
  "make_branches nin n blk nbl nch = Some (bs, nin') \<Longrightarrow>
     length bs = n \<and> n \<le> length nin \<and> n \<le> length nch \<and> n \<le> length nbl
     \<and> length nin' = length nin
     \<and> (\<forall>i<length nin. nin' ! i = (if i < n then nch ! i * expansion blk else nin ! i))
     \<and> (\<forall>i<n. map_option fst (make_one_branch nin i blk nbl nch 1) = Some (bs ! i))"
proof (induction n arbitrary: bs nin')
  case 0
  then show ?case by (simp add: make_branches_0)
next
  case (Suc n)
  from Suc.prems have e: "do {
     (bs, nin1) \<leftarrow> make_branches nin n blk nbl nch;
     (b, nin2) \<leftarrow> make_one_branch nin1 n blk nbl nch 1;
     Some (bs @ [b], nin2) } = Some (bs, nin')"
    by (simp only: make_branches_Suc)
  then obtain bs1 nin1 where 1: "make_branches nin n blk nbl nch = Some (bs1, nin1)"
    by (cases "make_branches nin n blk nbl nch") auto
  with e obtain b nin2 where mk: "make_one_branch nin1 n blk nbl nch 1 = Some (b, nin2)"
    by (cases "make_one_branch nin1 n blk nbl nch 1") auto
  from e 1 mk have 3: "bs = bs1 @ [b]" and 4: "nin' = nin2" by simp_all
  from mk 4 have 2: "make_one_branch nin1 n blk nbl nch 1 = Some (b, nin')" by simp
  note IH = Suc.IH [OF 1]
  note ob = make_one_branch_Some [OF 2]
  have len: "length nin1 = length nin" using IH by blast
  have "n < length nin" using ob len by simp
  moreover have "\<forall>i<length nin. nin1 ! i = (if i < n then nch ! i * expansion blk else nin ! i)"
    using IH by blast
  ultimately have "nin1 ! n = nin ! n" by simp
  then have "map_option fst (make_one_branch nin n blk nbl nch 1)
      = map_option fst (make_one_branch nin1 n blk nbl nch 1)"
    using len by (intro make_one_branch_state) simp_all
  then have st: "map_option fst (make_one_branch nin n blk nbl nch 1) = Some b"
    using 2 by simp
  have a: "length bs = Suc n" "Suc n \<le> length nin" "Suc n \<le> length nch" "Suc n \<le> length nbl"
    "length nin' = length nin"
    using IH ob 3 by simp_all
  have b: "nin' ! i = (if i < Suc n then nch ! i * expansion blk else nin ! i)"
    if "i < length nin" for i
    using IH ob that by (cases "i = n") (simp_all add: less_Suc_eq)
  have c: "map_option fst (make_one_branch nin i blk nbl nch 1) = Some (bs ! i)"
    if "i < Suc n" for i
    using IH st 3 that by (cases "i = n") (simp_all add: nth_append less_Suc_eq)
  show ?case using a b c by blast
qed

subsection \<open>Fusion layers\<close>

lemma make_fuse_layers_eq:
  assumes "nb \<le> length c" "nb \<noteq> 1"
  shows "make_fuse_layers nb c mso =
     Some (Some (map (\<lambda>i. map (\<lambda>j. fuse_layer_at c i j) [0..<nb])
                   [0..<(if mso then nb else 1)]))"
proof -
  have inner: "mapM (\<lambda>k.
          if k = i - j - 1 then do {
            num_outchannels_conv3x3 \<leftarrow> nth_opt c i;
            cj \<leftarrow> nth_opt c j;
            Some (Sequential
              [Conv2d cj num_outchannels_conv3x3 3 2 1 False,
               BatchNorm2d num_outchannels_conv3x3 None]) }
          else do {
            num_outchannels_conv3x3 \<leftarrow> nth_opt c j;
            cj \<leftarrow> nth_opt c j;
            Some (Sequential
              [Conv2d cj num_outchannels_conv3x3 3 2 1 False,
               BatchNorm2d num_outchannels_conv3x3 None,
               ReLU True]) })
        [0..<i - j] = Some (map (\<lambda>k.
             if k = i - j - 1
             then Sequential [Conv2d (c ! j) (c ! i) 3 2 1 False, BatchNorm2d (c ! i) None]
             else Sequential [Conv2d (c ! j) (c ! j) 3 2 1 False, BatchNorm2d (c ! j) None,
                              ReLU True]) [0..<i - j])"
    if "i < nb" "j < nb" for i j
    using that assms by (intro mapM_map) (auto simp: nth_opt_def)
  have row: "mapM (\<lambda>j.
              if j > i then do {
                cj \<leftarrow> nth_opt c j;
                ci \<leftarrow> nth_opt c i;
                Some (Some (Sequential
                  [Conv2d cj ci 1 1 0 False, BatchNorm2d ci None, Upsample (2 ^ (j - i))])) }
              else if j = i then Some None
              else do {
                conv3x3s \<leftarrow>
                  mapM (\<lambda>k.
                    if k = i - j - 1 then do {
                      num_outchannels_conv3x3 \<leftarrow> nth_opt c i;
                      cj \<leftarrow> nth_opt c j;
                      Some (Sequential
                        [Conv2d cj num_outchannels_conv3x3 3 2 1 False,
                         BatchNorm2d num_outchannels_conv3x3 None]) }
                    else do {
                      num_outchannels_conv3x3 \<leftarrow> nth_opt c j;
                      cj \<leftarrow> nth_opt c j;
                      Some (Sequential
                        [Conv2d cj num_outchannels_conv3x3 3 2 1 False,
                         BatchNorm2d num_outchannels_conv3x3 None,
                         ReLU True]) })
                  [0..<i - j];
                Some (Some (Sequential conv3x3s)) })
            [0..<nb] = Some (map (\<lambda>j. fuse_layer_at c i j) [0..<nb])"
    if i: "i < nb \<or> nb = 0" for i
  proof (rule mapM_map)
    fix j assume "j \<in> set [0..<nb]"
    then have j: "j < nb" by simp
    then have i': "i < nb" using i by simp
    consider "i < j" | "j = i" | "j < i" by linarith
    then show "(if j > i then do {
                cj \<leftarrow> nth_opt c j;
                ci \<leftarrow> nth_opt c i;
                Some (Some (Sequential
                  [Conv2d cj ci 1 1 0 False, BatchNorm2d ci None, Upsample (2 ^ (j - i))])) }
              else if j = i then Some None
              else do {
                conv3x3s \<leftarrow>
                  mapM (\<lambda>k.
                    if k = i - j - 1 then do {
                      num_outchannels_conv3x3 \<leftarrow> nth_opt c i;
                      cj \<leftarrow> nth_opt c j;
                      Some (Sequential
                        [Conv2d cj num_outchannels_conv3x3 3 2 1 False,
                         BatchNorm2d num_outchannels_conv3x3 None]) }
                    else do {
                      num_outchannels_conv3x3 \<leftarrow> nth_opt c j;
                      cj \<leftarrow> nth_opt c j;
                      Some (Sequential
                        [Conv2d cj num_outchannels_conv3x3 3 2 1 False,
                         BatchNorm2d num_outchannels_conv3x3 None,
                         ReLU True]) })
                  [0..<i - j];
                Some (Some (Sequential conv3x3s)) }) = Some (fuse_layer_at c i j)"
    proof cases
      case 1
      then show ?thesis using i' j assms by (simp add: nth_opt_def fuse_layer_at_def)
    next
      case 2
      then show ?thesis by (simp add: fuse_layer_at_def)
    next
      case 3
      then show ?thesis using inner [OF i' j] by (simp add: fuse_layer_at_def)
    qed
  qed
  have outer: "mapM (\<lambda>i.
            mapM (\<lambda>j.
              if j > i then do {
                cj \<leftarrow> nth_opt c j;
                ci \<leftarrow> nth_opt c i;
                Some (Some (Sequential
                  [Conv2d cj ci 1 1 0 False, BatchNorm2d ci None, Upsample (2 ^ (j - i))])) }
              else if j = i then Some None
              else do {
                conv3x3s \<leftarrow>
                  mapM (\<lambda>k.
                    if k = i - j - 1 then do {
                      num_outchannels_conv3x3 \<leftarrow> nth_opt c i;
                      cj \<leftarrow> nth_opt c j;
                      Some (Sequential
                        [Conv2d cj num_outchannels_conv3x3 3 2 1 False,
                         BatchNorm2d num_outchannels_conv3x3 None]) }
                    else do {
                      num_outchannels_conv3x3 \<leftarrow> nth_opt c j;
                      cj \<leftarrow> nth_opt c j;
                      Some (Sequential
                        [Conv2d cj num_outchannels_conv3x3 3 2 1 False,
                         BatchNorm2d num_outchannels_conv3x3 None,
                         ReLU True]) })
                  [0..<i - j];
                Some (Some (Sequential conv3x3s)) })
            [0..<nb])
          [0..<(if mso then nb else 1)] =
        Some (map (\<lambda>i. map (\<lambda>j. fuse_layer_at c i j) [0..<nb]) [0..<(if mso then nb else 1)])"
  proof (rule mapM_map)
    fix i assume "i \<in> set [0..<(if mso then nb else 1)]"
    then have "i < nb \<or> nb = 0" using assms by (auto split: if_splits)
    then show "mapM (\<lambda>j.
              if j > i then do {
                cj \<leftarrow> nth_opt c j;
                ci \<leftarrow> nth_opt c i;
                Some (Some (Sequential
                  [Conv2d cj ci 1 1 0 False, BatchNorm2d ci None, Upsample (2 ^ (j - i))])) }
              else if j = i then Some None
              else do {
                conv3x3s \<leftarrow>
                  mapM (\<lambda>k.
                    if k = i - j - 1 then do {
                      num_outchannels_conv3x3 \<leftarrow> nth_opt c i;
                      cj \<leftarrow> nth_opt c j;
                      Some (Sequential
                        [Conv2d cj num_outchannels_conv3x3 3 2 1 False,
                         BatchNorm2d num_outchannels_conv3x3 None]) }
                    else do {
                      num_outchannels_conv3x3 \<leftarrow> nth_opt c j;
                      cj \<leftarrow> nth_opt c j;
                      Some (Sequential
                        [Conv2d cj num_outchannels_conv3x3 3 2 1 False,
                         BatchNorm2d num_outchannels_conv3x3 None,
                         ReLU True]) })
                  [0..<i - j];
                Some (Some (Sequential conv3x3s)) })
            [0..<nb] = Some (map (\<lambda>j. fuse_layer_at c i j) [0..<nb])"
      by (rule row)
  qed
  show ?thesis
    unfolding make_fuse_layers_def outer using assms(2) by simp
qed

lemma HighResolutionModule_Some:
  assumes "HighResolutionModule nb blk nbl nin nch fm mso = Some m"
  shows "num_branches m = nb" "multi_scale_output m = mso" "hrm_relu m = ReLU True"
    "fuse_method m = fm"
    "length (branches m) = nb" "nb \<le> length nin" "nb \<le> length nch" "nb \<le> length nbl"
    "length (num_inchannels m) = length nin"
    "\<forall>i<length nin. num_inchannels m ! i = (if i < nb then nch ! i * expansion blk else nin ! i)"
    "\<forall>i<nb. map_option fst (make_one_branch nin i blk nbl nch 1) = Some (branches m ! i)"
    "fuse_layers m = (if nb = 1 then None
       else Some (map (\<lambda>i. map (\<lambda>j. fuse_layer_at (num_inchannels m) i j) [0..<nb])
                   [0..<(if mso then nb else 1)]))"
proof -
  from assms obtain bs c fl where
    mb: "make_branches nin nb blk nbl nch = Some (bs, c)"
    and mf: "make_fuse_layers nb c mso = Some fl"
    and m: "m = \<lparr>num_inchannels = c, fuse_method = fm, num_branches = nb,
                 multi_scale_output = mso, branches = bs, fuse_layers = fl,
                 hrm_relu = ReLU True\<rparr>"
    by (auto simp: HighResolutionModule_def split: bind_splits prod.splits)
  note B = make_branches_Some [OF mb]
  show "num_branches m = nb" "multi_scale_output m = mso" "hrm_relu m = ReLU True"
    "fuse_method m = fm"
    by (simp_all add: m)
  show "length (branches m) = nb" "nb \<le> length nin" "nb \<le> length nch" "nb \<le> length nbl"
    "length (num_inchannels m) = length nin"
    using B by (simp_all add: m)
  show "\<forall>i<length nin. num_inchannels m ! i = (if i < nb then nch ! i * expansion blk else nin ! i)"
    using B by (simp add: m)
  show "\<forall>i<nb. map_option fst (make_one_branch nin i blk nbl nch 1) = Some (branches m ! i)"
    using B by (simp add: m)
  have "nb \<le> length c" using B by simp
  then show "fuse_layers m = (if nb = 1 then None
       else Some (map (\<lambda>i. map (\<lambda>j. fuse_layer_at (num_inchannels m) i j) [0..<nb])
                   [0..<(if mso then nb else 1)]))"
    using mf make_fuse_layers_eq [of nb c mso]
    by (auto simp: m make_fuse_layers_def)
qed

subsection \<open>The forward pass\<close>

lemma nth_opt_append_left: "j < length ys \<Longrightarrow> nth_opt (ys @ zs) j = nth_opt ys j"
  by (simp add: nth_opt_def nth_append)

lemma nth_opt_append_drop: "length ys = n \<Longrightarrow> nth_opt (ys @ drop n xs) n = nth_opt xs n"
  by (auto simp: nth_opt_def nth_append)

lemma update_append_drop:
  "length ys = n \<Longrightarrow> n < length xs \<Longrightarrow> (ys @ drop n xs)[n := y] = (ys @ [y]) @ drop (Suc n) xs"
  by (simp add: list_update_append Cons_nth_drop_Suc [symmetric])

lemma foldM_snoc: "foldM f (xs @ [x]) s = do { s' \<leftarrow> foldM f xs s; f x s' }"
proof -
  have "foldM f [x] = f x" by (rule ext) (rule foldM_single)
  then show ?thesis by (simp add: foldM_append)
qed

lemma mapM_snoc: "mapM f (xs @ [x]) = do { as \<leftarrow> mapM f xs; b \<leftarrow> f x; Some (as @ [b]) }"
  by (cases "f x") (simp_all add: mapM_append)

lemma branch_loop:
  "foldM (\<lambda>i x. do {
       b \<leftarrow> nth_opt bs i;
       xi \<leftarrow> nth_opt x i;
       y \<leftarrow> call T b xi;
       Some (x[i := y]) }) [0..<n] xs =
   do { ys \<leftarrow> mapM (\<lambda>j. do { b \<leftarrow> nth_opt bs j; x \<leftarrow> nth_opt xs j; call T b x }) [0..<n];
        Some (ys @ drop n xs) }"
proof (induction n)
  case 0
  then show ?case by simp
next
  case (Suc n)
  let ?g = "\<lambda>j. do { b \<leftarrow> nth_opt bs j; x \<leftarrow> nth_opt xs j; call T b x }"
  show ?case
  proof (cases "mapM ?g [0..<n]")
    case None
    then show ?thesis using Suc by (simp add: foldM_snoc mapM_snoc)
  next
    case (Some ys)
    then have len: "length ys = n" using mapM_Some_length by fastforce
    show ?thesis
    proof (cases "?g n")
      case None
      then show ?thesis using Suc Some len
        by (auto simp: foldM_snoc mapM_snoc nth_opt_append_drop split: bind_splits)
    next
      case (Some y)
      then have "n < length xs" by (auto simp: nth_opt_def split: bind_splits if_splits)
      then show ?thesis using Suc Some \<open>mapM ?g [0..<n] = Some ys\<close> len
        by (auto simp: foldM_snoc mapM_snoc nth_opt_append_drop update_append_drop
            split: bind_splits)
    qed
  qed
qed

lemma fuse_row:
  assumes fl: "fuse_layers m = Some fl" and nb: "0 < num_branches m"
  shows "do {
      y \<leftarrow> (if i = 0 then nth_opt x 0
             else do {
               row \<leftarrow> nth_opt fl i;
               f \<leftarrow> nth_opt row 0;
               x0 \<leftarrow> nth_opt x 0;
               call_opt T f x0 });
      y \<leftarrow> foldM (\<lambda>j y.
              if i = j then do {
                xj \<leftarrow> nth_opt x j;
                t_add T y xj }
              else do {
                row \<leftarrow> nth_opt fl i;
                f \<leftarrow> nth_opt row j;
                xj \<leftarrow> nth_opt x j;
                z \<leftarrow> call_opt T f xj;
                t_add T y z })
            [1..<num_branches m] y;
      call T (hrm_relu m) y } =
    do { cs \<leftarrow> mapM (fuse_contribution T m x i) [0..<num_branches m];
         y \<leftarrow> fuse_sum T cs;
         call T (hrm_relu m) y }"
proof -
  have step: "(\<lambda>j y.
              if i = j then do {
                xj \<leftarrow> nth_opt x j;
                t_add T y xj }
              else do {
                row \<leftarrow> nth_opt fl i;
                f \<leftarrow> nth_opt row j;
                xj \<leftarrow> nth_opt x j;
                z \<leftarrow> call_opt T f xj;
                t_add T y z }) =
     (\<lambda>j y. do { z \<leftarrow> fuse_contribution T m x i j; t_add T y z })"
    by (intro ext) (auto simp: fuse_contribution_def fl)
  have first: "(if i = 0 then nth_opt x 0
             else do {
               row \<leftarrow> nth_opt fl i;
               f \<leftarrow> nth_opt row 0;
               x0 \<leftarrow> nth_opt x 0;
               call_opt T f x0 }) = fuse_contribution T m x i 0"
    by (auto simp: fuse_contribution_def fl)
  have upt: "[0..<num_branches m] = 0 # [1..<num_branches m]"
    using nb by (simp add: upt_conv_Cons)
  show ?thesis
    unfolding step first foldM_add_mapM upt
    by (cases "fuse_contribution T m x i 0"; cases "mapM (fuse_contribution T m x i) [1..<num_branches m]")
       simp_all
qed

lemma forward_fused:
  assumes fl: "fuse_layers m = Some fl" and nb: "1 < num_branches m"
  shows "HighResolutionModule_forward T m xs =
     do { ys \<leftarrow> branch_outputs T m xs; mapM (fused_output T m ys) [0..<length fl] }"
proof -
  have nb0: "0 < num_branches m" and nb1: "num_branches m \<noteq> 1" using nb by simp_all
  have rows: "(\<lambda>i. do {
                y \<leftarrow> (if i = 0 then nth_opt x 0
                       else do {
                         row \<leftarrow> nth_opt fl i;
                         f \<leftarrow> nth_opt row 0;
                         x0 \<leftarrow> nth_opt x 0;
                         call_opt T f x0 });
                y \<leftarrow> foldM (\<lambda>j y.
                        if i = j then do {
                          xj \<leftarrow> nth_opt x j;
                          t_add T y xj }
                        else do {
                          row \<leftarrow> nth_opt fl i;
                          f \<leftarrow> nth_opt row j;
                          xj \<leftarrow> nth_opt x j;
                          z \<leftarrow> call_opt T f xj;
                          t_add T y z })
                      [1..<num_branches m] y;
                call T (hrm_relu m) y }) = fused_output T m x" for x
    unfolding fused_output_def by (intro ext) (rule fuse_row [OF fl nb0])
  have pre: "fused_output T m (ys @ zs) i = fused_output T m ys i"
    if "length ys = num_branches m" for ys zs i
    unfolding fused_output_def
    using mapM_cong [of "[0..<num_branches m]" "fuse_contribution T m (ys @ zs) i"
        "fuse_contribution T m ys i"] that
    by (simp add: fuse_contribution_def nth_opt_append_left)
  have "HighResolutionModule_forward T m xs =
      do { x \<leftarrow> foldM (\<lambda>i x. do {
                b \<leftarrow> nth_opt (branches m) i;
                xi \<leftarrow> nth_opt x i;
                y \<leftarrow> call T b xi;
                Some (x[i := y]) })
              [0..<num_branches m] xs;
           mapM (fused_output T m x) [0..<length fl] }"
    unfolding HighResolutionModule_forward_def
    by (simp only: fl Option.bind.bind_lunit rows nb1 if_False)
  also have "\<dots> = do { ys \<leftarrow> branch_outputs T m xs;
                       mapM (fused_output T m (ys @ drop (num_branches m) xs)) [0..<length fl] }"
    unfolding branch_loop branch_outputs_def by simp
  also have "\<dots> = do { ys \<leftarrow> branch_outputs T m xs; mapM (fused_output T m ys) [0..<length fl] }"
  proof (cases "branch_outputs T m xs")
    case None
    then show ?thesis by simp
  next
    case (Some ys)
    then have "length ys = num_branches m"
      unfolding branch_outputs_def using mapM_Some_length by fastforce
    then show ?thesis using Some pre by (simp cong: mapM_cong)
  qed
  finally show ?thesis .
qed

lemma forward_single:
  assumes "num_branches m = 1" "0 < length (branches m)"
  shows "HighResolutionModule_forward T m (x # xs) = do { y \<leftarrow> call T (branches m ! 0) x; Some [y] }"
  using assms by (simp add: HighResolutionModule_forward_def nth_opt_def)

text \<open>
  Claim C5. A fusion module constructed with one branch has no fusion layers
  (\<open>fuse_layers\<close> is \<open>None\<close>), and its forward pass on a one-element list returns the
  one-element list of the branch's output: nothing but the branch is applied, for every
  interpretation \<open>T\<close> of the library.
\<close>

theorem single_branch_module:
  assumes "HighResolutionModule 1 blk nbl nin nch fm mso = Some m"
  shows "fuse_layers m = None \<and> length (branches m) = 1
     \<and> HighResolutionModule_forward T m [x] = do { y \<leftarrow> call T (branches m ! 0) x; Some [y] }"
  using HighResolutionModule_Some(1,5,12) [OF assms] forward_single [of m T x "[]"]
  by simp

theorem single_branch_module_witness:
  "HighResolutionModule 1 BasicBlockC [2] [8] [8] ''SUM'' True \<noteq> None
   \<and> fuse_layers (the (HighResolutionModule 1 BasicBlockC [2] [8] [8] ''SUM'' True)) = None
   \<and> HighResolutionModule_forward shape_ops
        (the (HighResolutionModule 1 BasicBlockC [2] [8] [8] ''SUM'' True)) [[1, 8, 4, 4]]
      = Some [[1, 8, 4, 4]]"
proof -
  have 1: "HighResolutionModule 1 BasicBlockC [2] [8] [8] ''SUM'' True \<noteq> None"
    by code_simp
  then obtain m where m: "HighResolutionModule 1 BasicBlockC [2] [8] [8] ''SUM'' True = Some m"
    by auto
  have 2: "call shape_ops
      (branches (the (HighResolutionModule 1 BasicBlockC [2] [8] [8] ''SUM'' True)) ! 0)
      [1, 8, 4, 4] = Some [1, 8, 4, 4]"
    by code_simp
  show ?thesis
    using single_branch_module [OF m, of shape_ops "[1, 8, 4, 4]"] 2 m by simp
qed




lemma make_stage_modules:
  assumes "make_stage cfg nin mso = Some (ms, c)"
  shows "length ms = NUM_MODULES cfg
    \<and> (\<forall>i<length ms. multi_scale_output (ms ! i) = (mso \<or> i \<noteq> NUM_MODULES cfg - 1)
          \<and> num_branches (ms ! i) = NUM_BRANCHES cfg)"
proof -
  from assms obtain blk where blk: "blocks_dict (BLOCK cfg) = Some blk"
    by (auto simp: make_stage_def split: bind_splits)
  let ?step = "\<lambda>i (modules, num_inchannels'). do {
              reset_multi_scale_output \<leftarrow> Some
                (if \<not> mso \<and> i = NUM_MODULES cfg - 1 then False else True);
              m \<leftarrow> HighResolutionModule (NUM_BRANCHES cfg) blk (NUM_BLOCKS cfg) num_inchannels'
                     (NUM_CHANNELS cfg) (FUSE_METHOD cfg) reset_multi_scale_output;
              Some (modules @ [m], get_num_inchannels m) }"
  have fold: "foldM ?step [0..<NUM_MODULES cfg] ([], nin) = Some (ms, c)"
    using assms blk by (simp add: make_stage_def)
  have inv: "foldM ?step [0..<k] ([], nin) = Some (ms', c') \<Longrightarrow>
       length ms' = k \<and> (\<forall>i<k. multi_scale_output (ms' ! i) = (mso \<or> i \<noteq> NUM_MODULES cfg - 1)
          \<and> num_branches (ms' ! i) = NUM_BRANCHES cfg)" for k ms' c'
  proof (induction k arbitrary: ms' c')
    case 0
    then show ?case by simp
  next
    case (Suc k)
    from Suc.prems obtain ms1 c1 where
      1: "foldM ?step [0..<k] ([], nin) = Some (ms1, c1)"
      and 2: "?step k (ms1, c1) = Some (ms', c')"
      by (cases "foldM ?step [0..<k] ([], nin)") (auto simp: foldM_snoc)
    from 2 obtain m where
      m: "HighResolutionModule (NUM_BRANCHES cfg) blk (NUM_BLOCKS cfg) c1
             (NUM_CHANNELS cfg) (FUSE_METHOD cfg) (mso \<or> k \<noteq> NUM_MODULES cfg - 1) = Some m"
      and ms': "ms' = ms1 @ [m]"
      by (auto split: bind_splits if_splits)
    note H = HighResolutionModule_Some(1,2) [OF m]
    show ?case
      using Suc.IH [OF 1] H ms' by (auto simp: nth_append less_Suc_eq)
  qed
  show ?thesis using inv [OF fold] by simp
qed

lemma backbone_multi_scale_flags:
  "map_option (\<lambda>n. (map multi_scale_output (stage2 n), map multi_scale_output (stage3 n),
                     map multi_scale_output (stage4 n))) HigherResolutionNet
     = Some ([True], [True, True, True, True], [True, True, False])"
  by code_simp

text \<open>
  Claim C6. A fusion module constructed with \<open>multi_scale_output = False\<close> has the one
  row of fusion layers for target 0, and its forward pass returns a list of length 1, the
  fused output for target 0; \<open>_make_stage\<close> passes \<open>False\<close> only to the last module of a
  stage built with \<open>multi_scale_output = False\<close>, and in the backbone that is the last
  module of stage 4 alone.
\<close>

theorem single_scale_output:
  "(\<forall>nb blk nbl nin nch fm m. HighResolutionModule nb blk nbl nin nch fm False = Some m \<longrightarrow>
      (nb \<noteq> 1 \<longrightarrow> (\<exists>row. fuse_layers m = Some [row] \<and> length row = nb))
      \<and> (\<forall>(T :: 't torch) xs out. HighResolutionModule_forward T m xs = Some out \<longrightarrow> length out = 1)
      \<and> (1 < nb \<longrightarrow> (\<forall>(T :: 't torch) xs. HighResolutionModule_forward T m xs =
            do { ys \<leftarrow> branch_outputs T m xs; y \<leftarrow> fused_output T m ys 0; Some [y] })))
   \<and> (\<forall>cfg nin mso ms c. make_stage cfg nin mso = Some (ms, c) \<longrightarrow>
        length ms = NUM_MODULES cfg
        \<and> (\<forall>i<length ms. multi_scale_output (ms ! i) = (mso \<or> i \<noteq> NUM_MODULES cfg - 1)))
   \<and> map_option (\<lambda>n. (map multi_scale_output (stage2 n), map multi_scale_output (stage3 n),
                       map multi_scale_output (stage4 n))) HigherResolutionNet
       = Some ([True], [True, True, True, True], [True, True, False])"
proof (intro conjI allI impI)
  fix nb blk nbl nin nch fm m
  assume c: "HighResolutionModule nb blk nbl nin nch fm False = Some m"
  note H = HighResolutionModule_Some [OF c]
  show "\<exists>row. fuse_layers m = Some [row] \<and> length row = nb" if "nb \<noteq> 1"
    using H(12) that by simp
  show "length out = 1" if f: "HighResolutionModule_forward T m xs = Some out"
    for T :: "'t torch" and xs out
  proof (cases "nb = 1")
    case True
    then show ?thesis using f H(1)
      by (auto simp: HighResolutionModule_forward_def split: bind_splits)
  next
    case False
    then have "fuse_layers m = Some [map (\<lambda>j. fuse_layer_at (num_inchannels m) 0 j) [0..<nb]]"
      using H(12) by simp
    then show ?thesis using f H(1) False mapM_Some_length [of _ "[0..<1]" out]
      by (auto simp: HighResolutionModule_forward_def split: bind_splits)
  qed
  show "HighResolutionModule_forward T m xs =
            do { ys \<leftarrow> branch_outputs T m xs; y \<leftarrow> fused_output T m ys 0; Some [y] }"
    if "1 < nb" for T :: "'t torch" and xs
  proof -
    have fl: "fuse_layers m = Some [map (\<lambda>j. fuse_layer_at (num_inchannels m) 0 j) [0..<nb]]"
      using H(12) that by simp
    show ?thesis
      using forward_fused [OF fl, of T xs] that H(1)
      by (cases "branch_outputs T m xs") simp_all
  qed
next
  fix cfg nin mso ms c
  assume "make_stage cfg nin mso = Some (ms, c)"
  from make_stage_modules [OF this]
  show "length ms = NUM_MODULES cfg"
    and "\<And>i. i < length ms \<Longrightarrow> multi_scale_output (ms ! i) = (mso \<or> i \<noteq> NUM_MODULES cfg - 1)"
    by simp_all
next
  show "map_option (\<lambda>n. (map multi_scale_output (stage2 n), map multi_scale_output (stage3 n),
                       map multi_scale_output (stage4 n))) HigherResolutionNet
       = Some ([True], [True, True, True, True], [True, True, False])"
    by (rule backbone_multi_scale_flags)
qed

theorem single_scale_output_witness:
  "HighResolutionModule 2 BasicBlockC [1, 1] [4, 8] [4, 8] ''SUM'' False \<noteq> None
   \<and> (2::nat) \<noteq> 1 \<and> (1::nat) < 2
   \<and> (\<exists>row. fuse_layers (the (HighResolutionModule 2 BasicBlockC [1, 1] [4, 8] [4, 8] ''SUM'' False))
              = Some [row] \<and> length row = 2)
   \<and> HighResolutionModule_forward shape_ops
        (the (HighResolutionModule 2 BasicBlockC [1, 1] [4, 8] [4, 8] ''SUM'' False))
        [[1, 4, 8, 8], [1, 8, 4, 4]]
      = Some [[1, 4, 8, 8]]
   \<and> length [[1, 4, 8, 8 :: nat]] = 1"
proof -
  let ?H = "HighResolutionModule 2 BasicBlockC [1, 1] [4, 8] [4, 8] ''SUM'' False"
  have 1: "?H \<noteq> None"
    by code_simp
  then obtain m where m: "?H = Some m"
    by auto
  have 3: "do { ys \<leftarrow> branch_outputs shape_ops (the ?H) [[1, 4, 8, 8], [1, 8, 4, 4]];
                y \<leftarrow> fused_output shape_ops (the ?H) ys 0;
                Some [y] }
      = Some [[1, 4, 8, 8]]"
    by code_simp
  note S = single_scale_output [where 't = "nat list", THEN conjunct1, rule_format, OF m]
  from S have "\<exists>row. fuse_layers m = Some [row] \<and> length row = 2"
    by simp
  moreover from S
  have "HighResolutionModule_forward shape_ops m [[1, 4, 8, 8], [1, 8, 4, 4]] =
            do { ys \<leftarrow> branch_outputs shape_ops m [[1, 4, 8, 8], [1, 8, 4, 4]];
                 y \<leftarrow> fused_output shape_ops m ys 0; Some [y] }"
    by simp
  ultimately show ?thesis
    using 1 3 m by simp
qed

section \<open>Residual blocks: properties\<close>






lemma shape_nn_call [simp]: "nn_call shape_ops = nn_shape"
  by (simp add: shape_ops_def)

lemma shape_iadd_same [simp]: "t_iadd shape_ops s s = Some s"
proof -
  have "bdims s s = Some s" by (induction s) (simp_all add: bdim_def)
  then show ?thesis by (simp add: shape_ops_def broadcast_shapes_def)
qed











section \<open>The input of the backbone\<close>





section \<open>Shapes of the tensors of a forward pass\<close>

text \<open>
  The first interpretation abstracts the second: when every library layer returns a
  tensor of the shape that the library documents (\<open>nn_shape\<close>), the shape of what a
  forward pass returns on tensors is what the same forward pass returns on their shapes.
\<close>

lemma bind_hom:
  assumes "map_option \<alpha> m = M" and "\<And>a. m = Some a \<Longrightarrow> map_option \<beta> (g a) = G (\<alpha> a)"
  shows "map_option \<beta> (m \<bind> g) = M \<bind> G"
  using assms by (cases m) auto

lemma bind_same:
  assumes "\<And>a. m = Some a \<Longrightarrow> map_option \<beta> (g a) = G a"
  shows "map_option \<beta> (m \<bind> g) = m \<bind> G"
  using assms by (cases m) auto

lemma mapM_hom:
  assumes "\<And>x. x \<in> set xs \<Longrightarrow> map_option \<alpha> (f x) = g x"
  shows "map_option (map \<alpha>) (mapM f xs) = mapM g xs"
  using assms
proof (induction xs)
  case Nil
  then show ?case by simp
next
  case (Cons x xs)
  then have 1: "map_option \<alpha> (f x) = g x" and 2: "map_option (map \<alpha>) (mapM f xs) = mapM g xs"
    by simp_all
  show ?case
    unfolding mapM.simps
    by (rule bind_hom [OF 1], rule bind_hom [OF 2]) simp
qed

lemma foldM_hom:
  assumes "\<And>x s. x \<in> set xs \<Longrightarrow> map_option \<beta> (f x s) = g x (\<beta> s)"
  shows "map_option \<beta> (foldM f xs s) = foldM g xs (\<beta> s)"
  using assms
proof (induction xs arbitrary: s)
  case Nil
  then show ?case by simp
next
  case (Cons x xs)
  have 1: "map_option \<beta> (f x s) = g x (\<beta> s)" using Cons.prems by simp
  show ?case
    unfolding foldM.simps
    by (rule bind_hom [OF 1]) (use Cons in simp)
qed

lemma nth_opt_map: "nth_opt (map f xs) i = map_option f (nth_opt xs i)"
  by (simp add: nth_opt_def)

lemma last_opt_map: "last_opt (map f xs) = map_option f (last_opt xs)"
  by (simp add: last_opt_def last_map)

lemma val_ops_sel:
  "nn_call (val_ops prim) = prim" "t_add (val_ops prim) = add" "t_iadd (val_ops prim) = iadd"
  "t_cat (val_ops prim) = cat" "t_unsqueeze (val_ops prim) = unsqueeze"
  "t_transpose (val_ops prim) = transpose_t" "t_squeeze (val_ops prim) = squeeze"
  "t_div_scalar (val_ops prim) = div_scalar" "t_mul_scalar (val_ops prim) = mul_scalar"
  "t_sub_scalar (val_ops prim) = sub_scalar" "t_size0 (val_ops prim) = (\<lambda>x. nth_opt (shape x) 0)"
  "t_repeat (val_ops prim) = repeat" "t_select (val_ops prim) = select"
  "t_assign_select (val_ops prim) = assign_select" "t_pow_base (val_ops prim) = pow_base"
  "t_const (val_ops prim) = (\<lambda>c. c)"
  by (simp_all add: val_ops_def)

lemma shape_ops_sel:
  "nn_call shape_ops = nn_shape" "t_add shape_ops = broadcast_shapes"
  "t_iadd shape_ops = (\<lambda>a b. do { r \<leftarrow> broadcast_shapes a b; if r = a then Some r else None })"
  "t_cat shape_ops = cat_shape" "t_unsqueeze shape_ops = unsqueeze_shape"
  "t_transpose shape_ops = transpose_shape" "t_squeeze shape_ops = squeeze_shape"
  "t_div_scalar shape_ops = (\<lambda>s c. s)" "t_mul_scalar shape_ops = (\<lambda>s c. s)"
  "t_sub_scalar shape_ops = (\<lambda>s c. s)" "t_size0 shape_ops = (\<lambda>s. nth_opt s 0)"
  "t_repeat shape_ops = repeat_shape" "t_select shape_ops = select_shape"
  "t_assign_select shape_ops = (\<lambda>s d i v. do {
         sel \<leftarrow> select_shape s d i;
         b \<leftarrow> broadcast_shapes v sel;
         if b = sel then Some s else None })"
  "t_pow_base shape_ops = (\<lambda>b s. s)" "t_const shape_ops = shape"
  by (simp_all add: shape_ops_def)

lemma add_shape: "map_option shape (add a b) = t_add shape_ops (shape a) (shape b)"
  by (cases "broadcast_shapes (shape a) (shape b)") (simp_all add: add_def shape_ops_sel)

lemma iadd_shape: "map_option shape (iadd a b) = t_iadd shape_ops (shape a) (shape b)"
  by (cases "broadcast_shapes (shape a) (shape b)") (simp_all add: iadd_def add_def shape_ops_sel)

lemma cat_shape_hom: "map_option shape (cat ts ax) = t_cat shape_ops (map shape ts) ax"
  by (cases ts) (auto simp: cat_def cat_shape_def shape_ops_sel split: bind_splits)

lemma unsqueeze_shape_hom: "map_option shape (unsqueeze t d) = t_unsqueeze shape_ops (shape t) d"
  by (auto simp: unsqueeze_def unsqueeze_shape_def shape_ops_sel split: bind_splits)

lemma transpose_shape_hom:
  "map_option shape (transpose_t t d0 d1) = t_transpose shape_ops (shape t) d0 d1"
  by (auto simp: transpose_t_def transpose_shape_def shape_ops_sel split: bind_splits)

lemma squeeze_shape_hom: "map_option shape (squeeze t d) = t_squeeze shape_ops (shape t) d"
  by (auto simp: squeeze_def squeeze_shape_def shape_ops_sel split: bind_splits)

lemma repeat_shape_hom: "map_option shape (repeat t r) = t_repeat shape_ops (shape t) r"
  by (auto simp: repeat_def repeat_shape_def shape_ops_sel split: bind_splits)

lemma select_shape_hom: "map_option shape (select t d i) = t_select shape_ops (shape t) d i"
  by (auto simp: select_def select_shape_def shape_ops_sel split: bind_splits)

lemma assign_select_shape_hom:
  "map_option shape (assign_select t d i v) = t_assign_select shape_ops (shape t) d i (shape v)"
  by (auto simp: assign_select_def shape_ops_sel split: bind_splits)

lemma scalar_shape [simp]:
  "shape (div_scalar t c) = shape t" "shape (mul_scalar t c) = shape t"
  "shape (sub_scalar t c) = shape t" "shape (pow_base b t) = shape t"
  by (simp_all add: div_scalar_def mul_scalar_def sub_scalar_def pow_base_def)

lemma call_shape:
  assumes prim_ok: "\<And>l t. map_option shape (prim l t) = nn_shape l (shape t)"
  shows "map_option shape (call (val_ops prim) l x) = call shape_ops l (shape x)"
    and "map_option shape (call_seq (val_ops prim) ls x) = call_seq shape_ops ls (shape x)"
proof (induction "val_ops prim" l x and "val_ops prim" ls x rule: call_call_seq.induct)
  case (1 ls x)
  then show ?case by simp
next
  case (2 conv1' bn1' relu' conv2' bn2' downsample stride x)
  have ds: "map_option shape (case downsample of None \<Rightarrow> Some x | Some d \<Rightarrow> call (val_ops prim) d x)
      = (case downsample of None \<Rightarrow> Some (shape x) | Some d \<Rightarrow> call shape_ops d (shape x))"
    if "call (val_ops prim) conv1' x = Some a" "call (val_ops prim) bn1' a = Some b"
      "call (val_ops prim) relu' b = Some c" "call (val_ops prim) conv2' c = Some d'"
      "call (val_ops prim) bn2' d' = Some e" for a b c d' e
    using 2(6) [OF refl that] by (cases downsample) simp_all
  show ?case
    unfolding call.simps Option.bind.bind_lunit
    apply (rule bind_hom [OF 2(1)], simp)
    apply (rule bind_hom [OF 2(2)], simp, assumption)
    apply (rule bind_hom [OF 2(3)], simp, assumption, assumption)
    apply (rule bind_hom [OF 2(4)], simp, assumption, assumption, assumption)
    apply (rule bind_hom [OF 2(5)], simp, assumption, assumption, assumption, assumption)
    apply (rule bind_hom [OF ds], assumption, assumption, assumption, assumption, assumption)
    apply (rule bind_hom [where \<alpha> = shape])
     apply (simp add: iadd_shape val_ops_sel)
    apply (rule 2(7)) apply simp apply assumption+
    done
next
  case (3 conv1' bn1' conv2' bn2' conv3' bn3' relu' downsample stride x)
  have ds: "map_option shape (case downsample of None \<Rightarrow> Some x | Some d \<Rightarrow> call (val_ops prim) d x)
      = (case downsample of None \<Rightarrow> Some (shape x) | Some d \<Rightarrow> call shape_ops d (shape x))"
    if "call (val_ops prim) conv1' x = Some a" "call (val_ops prim) bn1' a = Some b"
      "call (val_ops prim) relu' b = Some c" "call (val_ops prim) conv2' c = Some d'"
      "call (val_ops prim) bn2' d' = Some e" "call (val_ops prim) relu' e = Some f"
      "call (val_ops prim) conv3' f = Some g" "call (val_ops prim) bn3' g = Some h"
    for a b c d' e f g h
    using 3(9) [OF refl that] by (cases downsample) simp_all
  show ?case
    unfolding call.simps Option.bind.bind_lunit
    apply (rule bind_hom [OF 3(1)], simp)
    apply (rule bind_hom [OF 3(2)], simp, assumption)
    apply (rule bind_hom [OF 3(3)], simp, assumption, assumption)
    apply (rule bind_hom [OF 3(4)], simp, assumption, assumption, assumption)
    apply (rule bind_hom [OF 3(5)], simp, assumption, assumption, assumption, assumption)
    apply (rule bind_hom [OF 3(6)], simp, assumption, assumption, assumption, assumption,
        assumption)
    apply (rule bind_hom [OF 3(7)], simp, assumption, assumption, assumption, assumption,
        assumption, assumption)
    apply (rule bind_hom [OF 3(8)], simp, assumption, assumption, assumption, assumption,
        assumption, assumption, assumption)
    apply (rule bind_hom [OF ds], assumption, assumption, assumption, assumption, assumption,
        assumption, assumption, assumption)
    apply (rule bind_hom [where \<alpha> = shape])
     apply (simp add: iadd_shape val_ops_sel)
    apply (rule 3(10)) apply simp apply assumption+
    done
next
  case (4 i o' k s p b x)
  then show ?case by (simp add: prim_ok val_ops_sel)
next
  case (5 c m x)
  then show ?case by (simp add: prim_ok val_ops_sel)
next
  case (6 ip x)
  then show ?case by (simp add: prim_ok val_ops_sel)
next
  case (7 f x)
  then show ?case by (simp add: prim_ok val_ops_sel)
next
  case (8 x)
  then show ?case by simp
next
  case (9 l ls x)
  show ?case
    unfolding call_seq.simps
    by (rule bind_hom [OF 9(1)]) (use 9(2) in simp)
qed


lemma call_opt_shape:
  assumes "\<And>l t. map_option shape (prim l t) = nn_shape l (shape t)"
  shows "map_option shape (call_opt (val_ops prim) l x) = call_opt shape_ops l (shape x)"
  using call_shape(1) [OF assms] by (cases l) (simp_all add: call_opt_def)

lemma forward_shape:
  assumes prim_ok: "\<And>l t. map_option shape (prim l t) = nn_shape l (shape t)"
  shows "map_option (map shape) (HighResolutionModule_forward (val_ops prim) m xs)
     = HighResolutionModule_forward shape_ops m (map shape xs)"
proof (cases "num_branches m = 1")
  case True
  show ?thesis
    unfolding HighResolutionModule_forward_def
    apply (simp only: True if_True nth_opt_map simp_thms)
    apply (rule bind_same)
    apply (rule bind_hom [OF refl])
    apply (rule bind_hom [OF call_shape(1) [OF prim_ok]])
    apply simp
    done
next
  case False
  have branch: "map_option (map shape)
       (do { b \<leftarrow> nth_opt (branches m) i; xi \<leftarrow> nth_opt x i; y \<leftarrow> call (val_ops prim) b xi;
             Some (x[i := y]) })
     = do { b \<leftarrow> nth_opt (branches m) i; xi \<leftarrow> nth_opt (map shape x) i;
            y \<leftarrow> call shape_ops b xi; Some ((map shape x)[i := y]) }" for i x
    apply (simp only: nth_opt_map)
    apply (rule bind_same)
    apply (rule bind_hom [OF refl])
    apply (rule bind_hom [OF call_shape(1) [OF prim_ok]])
    apply (simp add: map_update)
    done
  have row: "map_option shape
       (do { y \<leftarrow> (if i = 0 then nth_opt x 0
                    else do { row \<leftarrow> nth_opt fl i; f \<leftarrow> nth_opt row 0; x0 \<leftarrow> nth_opt x 0;
                              call_opt (val_ops prim) f x0 });
             y \<leftarrow> foldM (\<lambda>j y.
                     if i = j then do { xj \<leftarrow> nth_opt x j; t_add (val_ops prim) y xj }
                     else do { row \<leftarrow> nth_opt fl i; f \<leftarrow> nth_opt row j; xj \<leftarrow> nth_opt x j;
                               z \<leftarrow> call_opt (val_ops prim) f xj; t_add (val_ops prim) y z })
                   [1..<num_branches m] y;
             call (val_ops prim) (hrm_relu m) y })
     = do { y \<leftarrow> (if i = 0 then nth_opt (map shape x) 0
                   else do { row \<leftarrow> nth_opt fl i; f \<leftarrow> nth_opt row 0;
                             x0 \<leftarrow> nth_opt (map shape x) 0; call_opt shape_ops f x0 });
            y \<leftarrow> foldM (\<lambda>j y.
                    if i = j then do { xj \<leftarrow> nth_opt (map shape x) j; t_add shape_ops y xj }
                    else do { row \<leftarrow> nth_opt fl i; f \<leftarrow> nth_opt row j;
                              xj \<leftarrow> nth_opt (map shape x) j;
                              z \<leftarrow> call_opt shape_ops f xj; t_add shape_ops y z })
                  [1..<num_branches m] y;
            call shape_ops (hrm_relu m) y }" for i x fl
  proof -
    have first: "map_option shape (if i = 0 then nth_opt x 0
                    else do { row \<leftarrow> nth_opt fl i; f \<leftarrow> nth_opt row 0; x0 \<leftarrow> nth_opt x 0;
                              call_opt (val_ops prim) f x0 })
       = (if i = 0 then nth_opt (map shape x) 0
                   else do { row \<leftarrow> nth_opt fl i; f \<leftarrow> nth_opt row 0;
                             x0 \<leftarrow> nth_opt (map shape x) 0; call_opt shape_ops f x0 })"
    proof (cases "i = 0")
      case True
      then show ?thesis by (simp add: nth_opt_map)
    next
      case False
      show ?thesis
        apply (simp only: False if_False nth_opt_map)
        apply (rule bind_same)
        apply (rule bind_same)
        apply (rule bind_hom [OF refl])
        apply (rule call_opt_shape [OF prim_ok])
        done
    qed
    have step: "map_option shape
          (if i = j then do { xj \<leftarrow> nth_opt x j; t_add (val_ops prim) y xj }
           else do { row \<leftarrow> nth_opt fl i; f \<leftarrow> nth_opt row j; xj \<leftarrow> nth_opt x j;
                     z \<leftarrow> call_opt (val_ops prim) f xj; t_add (val_ops prim) y z })
       = (if i = j then do { xj \<leftarrow> nth_opt (map shape x) j; t_add shape_ops (shape y) xj }
          else do { row \<leftarrow> nth_opt fl i; f \<leftarrow> nth_opt row j;
                    xj \<leftarrow> nth_opt (map shape x) j;
                    z \<leftarrow> call_opt shape_ops f xj; t_add shape_ops (shape y) z })" for j y
    proof (cases "i = j")
      case True
      show ?thesis
        apply (simp only: True if_True nth_opt_map simp_thms)
        apply (rule bind_hom [OF refl])
        apply (simp add: add_shape val_ops_sel)
        done
    next
      case False
      show ?thesis
        apply (simp only: False if_False nth_opt_map)
        apply (rule bind_same)
        apply (rule bind_same)
        apply (rule bind_hom [OF refl])
        apply (rule bind_hom [OF call_opt_shape [OF prim_ok]])
        apply (simp add: add_shape val_ops_sel)
        done
    qed
    show ?thesis
      apply (rule bind_hom [OF first])
      apply (rule bind_hom [where \<alpha> = shape])
       apply (rule foldM_hom)
       apply (rule step)
      apply (rule call_shape(1) [OF prim_ok])
      done
  qed
  show ?thesis
    unfolding HighResolutionModule_forward_def
    apply (simp only: False if_False)
    apply (rule bind_hom [where \<alpha> = "map shape"])
     apply (rule foldM_hom)
     apply (rule branch)
    apply (rule bind_same)
    apply (rule mapM_hom)
    apply (rule row)
    done
qed

lemma stage_forward_shape:
  assumes prim_ok: "\<And>l t. map_option shape (prim l t) = nn_shape l (shape t)"
  shows "map_option (map shape) (stage_forward (val_ops prim) ms xs)
     = stage_forward shape_ops ms (map shape xs)"
  unfolding stage_forward_def
  by (rule foldM_hom) (rule forward_shape [OF prim_ok])

lemma normalize_input_shape_hom:
  "map_option shape (normalize_input (val_ops prim) x) = normalize_input shape_ops (shape x)"
  unfolding normalize_input_def BHWC_to_BCHW_def val_ops_sel
  apply (rule bind_hom [where \<alpha> = shape])
   apply (rule bind_hom [OF unsqueeze_shape_hom])
   apply (rule bind_hom [OF transpose_shape_hom])
   apply (rule squeeze_shape_hom)
  apply (simp add: shape_ops_sel)
  done

lemma stem_stages_shape:
  assumes prim_ok: "\<And>l t. map_option shape (prim l t) = nn_shape l (shape t)"
  shows "map_option shape (HigherResolutionNet_stem_stages (val_ops prim) net x)
     = HigherResolutionNet_stem_stages shape_ops net (shape x)"
proof -
  note c = call_shape(1) [OF prim_ok]
  have t1: "map_option shape
        (do { t \<leftarrow> nth_opt ts i;
              (case t of Some l \<Rightarrow> call (val_ops prim) l y | None \<Rightarrow> Some y) })
      = do { t \<leftarrow> nth_opt ts i;
             (case t of Some l \<Rightarrow> call shape_ops l (shape y) | None \<Rightarrow> Some (shape y)) }"
    for ts i y
    by (rule bind_same) (simp add: c split: option.split)
  have t2: "map_option shape
        (do { t \<leftarrow> nth_opt ts i;
              (case t of Some l \<Rightarrow> do { y \<leftarrow> last_opt ys; call (val_ops prim) l y }
                       | None \<Rightarrow> nth_opt ys i) })
      = do { t \<leftarrow> nth_opt ts i;
             (case t of Some l \<Rightarrow> do { y \<leftarrow> last_opt (map shape ys); call shape_ops l y }
                      | None \<Rightarrow> nth_opt (map shape ys) i) }"
    for ts i ys
  proof (rule bind_same)
    fix t assume "nth_opt ts i = Some t"
    show "map_option shape
        (case t of Some l \<Rightarrow> do { y \<leftarrow> last_opt ys; call (val_ops prim) l y }
                 | None \<Rightarrow> nth_opt ys i)
      = (case t of Some l \<Rightarrow> do { y \<leftarrow> last_opt (map shape ys); call shape_ops l y }
                 | None \<Rightarrow> nth_opt (map shape ys) i)"
    proof (cases t)
      case None
      then show ?thesis by (simp add: nth_opt_map)
    next
      case (Some l)
      show ?thesis
        unfolding Some option.case last_opt_map
        by (rule bind_hom [OF refl]) (rule c)
    qed
  qed
  show ?thesis
    unfolding HigherResolutionNet_stem_stages_def
    apply (rule bind_hom [OF c])
    apply (rule bind_hom [OF c])
    apply (rule bind_hom [OF c])
    apply (rule bind_hom [OF c])
    apply (rule bind_hom [OF c])
    apply (rule bind_hom [OF c])
    apply (rule bind_hom [OF c])
    apply (rule bind_hom [where \<alpha> = "map shape"])
     apply (rule mapM_hom)
     apply (rule t1)
    apply (rule bind_hom [OF stage_forward_shape [OF prim_ok]])
    apply (rule bind_hom [where \<alpha> = "map shape"])
     apply (rule mapM_hom)
     apply (rule t2)
    apply (rule bind_hom [OF stage_forward_shape [OF prim_ok]])
    apply (rule bind_hom [where \<alpha> = "map shape"])
     apply (rule mapM_hom)
     apply (rule t2)
    apply (rule bind_hom [OF stage_forward_shape [OF prim_ok]])
    apply (simp add: nth_opt_map)
    done
qed

lemma HigherResolutionNet_forward_shape:
  assumes prim_ok: "\<And>l t. map_option shape (prim l t) = nn_shape l (shape t)"
  shows "map_option shape (HigherResolutionNet_forward (val_ops prim) net x)
     = HigherResolutionNet_forward shape_ops net (shape x)"
  unfolding HigherResolutionNet_forward_def
  by (rule bind_hom [OF normalize_input_shape_hom]) (rule stem_stages_shape [OF prim_ok])

lemma ROMPv1_forward_shape:
  assumes prim_ok: "\<And>l t. map_option shape (prim l t) = nn_shape l (shape t)"
  shows "map_option (map_prod shape shape) (ROMPv1_forward (val_ops prim) m x)
     = ROMPv1_forward shape_ops m (shape x)"
proof -
  note c = call_opt_shape [OF prim_ok]
  show ?thesis
    unfolding ROMPv1_forward_def
    apply (rule bind_hom [OF HigherResolutionNet_forward_shape [OF prim_ok]])
    apply (rule bind_hom [where \<alpha> = "\<lambda>n. n"])
     apply (simp add: val_ops_sel shape_ops_sel option.map_ident)
    apply (rule bind_hom [where \<alpha> = shape])
     apply (simp add: repeat_shape_hom val_ops_sel shape_ops_sel(16))
    apply (rule bind_hom [where \<alpha> = shape])
     apply (simp add: cat_shape_hom val_ops_sel)
    apply (rule bind_same)
    apply (rule bind_hom [OF c])
    apply (rule bind_same)
    apply (rule bind_hom [OF c])
    apply (rule bind_same)
    apply (rule bind_hom [OF c])
    apply (rule bind_hom [where \<alpha> = shape])
     apply (simp add: select_shape_hom val_ops_sel)
    apply (rule bind_hom [where \<alpha> = shape])
     apply (simp add: assign_select_shape_hom val_ops_sel shape_ops_sel(15))
    apply (rule bind_hom [where \<alpha> = shape])
     apply (simp add: cat_shape_hom val_ops_sel)
    apply simp
    done
qed

section \<open>The whole network on a 512 by 512 image\<close>

text \<open>The shapes along \<open>ROMPv1.forward\<close> for an input of shape \<open>(1, 512, 512, 3)\<close>: the
  backbone's feature map, the batch size, the repeated coordinate map, the head input, the
  outputs of the camera head and of the parameter head, and the result.\<close>

lemma ROMPv1_trace:
  "do { m \<leftarrow> ROMPv1;
        f \<leftarrow> HigherResolutionNet_forward shape_ops (backbone m) [1, 512, 512, 3];
        b \<leftarrow> t_size0 shape_ops f;
        c \<leftarrow> t_repeat shape_ops (t_const shape_ops (coordmaps m)) [b, 1, 1, 1];
        x \<leftarrow> t_cat shape_ops [f, c] 1;
        l \<leftarrow> nth_opt (final_layers m) 3;
        cam \<leftarrow> call_opt shape_ops l x;
        l \<leftarrow> nth_opt (final_layers m) 1;
        params \<leftarrow> call_opt shape_ops l x;
        r \<leftarrow> ROMPv1_forward shape_ops m [1, 512, 512, 3];
        Some (f, b, c, x, cam, params, r) } =
   Some ([1, 32, 128, 128], 1, [1, 2, 128, 128], [1, 34, 128, 128], [1, 3, 64, 64],
         [1, 142, 64, 64], ([1, 1, 64, 64], [1, 145, 64, 64]))"
  by code_simp

lemma ROMPv1_trace_facts:
  obtains m where
    "ROMPv1 = Some m"
    "HigherResolutionNet_forward shape_ops (backbone m) [1, 512, 512, 3] = Some [1, 32, 128, 128]"
    "t_size0 shape_ops [1, 32, 128, 128] = Some 1"
    "t_repeat shape_ops (t_const shape_ops (coordmaps m)) [1, 1, 1, 1] = Some [1, 2, 128, 128]"
    "t_cat shape_ops [[1, 32, 128, 128], [1, 2, 128, 128]] 1 = Some [1, 34, 128, 128]"
    "(do { l \<leftarrow> nth_opt (final_layers m) 3; call_opt shape_ops l [1, 34, 128, 128] })
       = Some [1, 3, 64, 64]"
    "(do { l \<leftarrow> nth_opt (final_layers m) 1; call_opt shape_ops l [1, 34, 128, 128] })
       = Some [1, 142, 64, 64]"
    "ROMPv1_forward shape_ops m [1, 512, 512, 3] = Some ([1, 1, 64, 64], [1, 145, 64, 64])"
  using ROMPv1_trace by (auto simp: bind_eq_Some_conv)

lemma ROMPv1_forward_Some:
  assumes "ROMPv1_forward T m img = Some (center, pm)"
  shows "\<exists>f b c x body raw s cam.
      HigherResolutionNet_forward T (backbone m) img = Some f
    \<and> t_size0 T f = Some b
    \<and> t_repeat T (t_const T (coordmaps m)) [b, 1, 1, 1] = Some c
    \<and> t_cat T [f, c] 1 = Some x
    \<and> (do { l \<leftarrow> nth_opt (final_layers m) 1; call_opt T l x }) = Some body
    \<and> (do { l \<leftarrow> nth_opt (final_layers m) 2; call_opt T l x }) = Some center
    \<and> (do { l \<leftarrow> nth_opt (final_layers m) 3; call_opt T l x }) = Some raw
    \<and> t_select T raw 1 0 = Some s
    \<and> t_assign_select T raw 1 0 (t_pow_base T 1.1 s) = Some cam
    \<and> t_cat T [cam, body] 1 = Some pm"
  using assms unfolding ROMPv1_forward_def
  by (auto simp: bind_eq_Some_conv)

text \<open>
  Claim C1, as amended. For every input tensor of shape \<open>(1, 512, 512, 3)\<close>, and whatever
  the library layers compute as long as their outputs have the shapes the library
  documents, \<open>ROMPv1.forward\<close> returns a detection map of shape \<open>(1, 1, 64, 64)\<close> and a
  parameter map of shape \<open>(1, 3 + 22 * 6 + 10, 64, 64)\<close>, that is 145 channels: the
  concatenation along the channel axis of the 3 channels of the camera head (its channel 0
  replaced by 1.1 to its power) with the \<open>22 * 6 + 10 = 142\<close> channels of the body and
  shape head.
\<close>

theorem ROMPv1_forward_shapes:
  assumes prim_ok: "\<forall>l t. map_option shape (prim l t) = nn_shape l (shape t)"
    and img: "shape img = [1, 512, 512, 3]"
  shows "\<exists>m x body raw s cam center params_maps.
      ROMPv1 = Some m
    \<and> ROMPv1_forward (val_ops prim) m img = Some (center, params_maps)
    \<and> shape center = [1, 1, 64, 64]
    \<and> shape params_maps = [1, 3 + 22 * 6 + 10, 64, 64]
    \<and> (do { l \<leftarrow> nth_opt (final_layers m) 3; call_opt (val_ops prim) l x }) = Some raw
    \<and> shape raw = [1, 3, 64, 64]
    \<and> select raw 1 0 = Some s
    \<and> assign_select raw 1 0 (pow_base 1.1 s) = Some cam
    \<and> shape cam = [1, 3, 64, 64]
    \<and> (do { l \<leftarrow> nth_opt (final_layers m) 1; call_opt (val_ops prim) l x }) = Some body
    \<and> shape body = [1, 22 * 6 + 10, 64, 64]
    \<and> cat [cam, body] 1 = Some params_maps"
proof -
  have ok: "map_option shape (prim l t) = nn_shape l (shape t)" for l t
    using prim_ok by simp
  obtain m where m: "ROMPv1 = Some m"
    and tf: "HigherResolutionNet_forward shape_ops (backbone m) [1, 512, 512, 3]
               = Some [1, 32, 128, 128]"
    and tb: "t_size0 shape_ops [1, 32, 128, 128] = Some 1"
    and tc: "t_repeat shape_ops (t_const shape_ops (coordmaps m)) [1, 1, 1, 1]
               = Some [1, 2, 128, 128]"
    and tx: "t_cat shape_ops [[1, 32, 128, 128], [1, 2, 128, 128]] 1 = Some [1, 34, 128, 128]"
    and t3: "(do { l \<leftarrow> nth_opt (final_layers m) 3; call_opt shape_ops l [1, 34, 128, 128] })
       = Some [1, 3, 64, 64]"
    and t1: "(do { l \<leftarrow> nth_opt (final_layers m) 1; call_opt shape_ops l [1, 34, 128, 128] })
       = Some [1, 142, 64, 64]"
    and tr: "ROMPv1_forward shape_ops m [1, 512, 512, 3]
               = Some ([1, 1, 64, 64], [1, 145, 64, 64])"
    by (rule ROMPv1_trace_facts)
  have "map_option (map_prod shape shape) (ROMPv1_forward (val_ops prim) m img)
          = Some ([1, 1, 64, 64], [1, 145, 64, 64])"
    using ROMPv1_forward_shape [of prim m img, OF ok] img tr by simp
  then obtain center pm where
    fw: "ROMPv1_forward (val_ops prim) m img = Some (center, pm)"
    and sc: "shape center = [1, 1, 64, 64]" and sp: "shape pm = [1, 145, 64, 64]"
    by auto
  from ROMPv1_forward_Some [OF fw] obtain f b c x body raw s cam where
    f: "HigherResolutionNet_forward (val_ops prim) (backbone m) img = Some f"
    and b: "t_size0 (val_ops prim) f = Some b"
    and c: "t_repeat (val_ops prim) (t_const (val_ops prim) (coordmaps m)) [b, 1, 1, 1] = Some c"
    and x: "t_cat (val_ops prim) [f, c] 1 = Some x"
    and body: "(do { l \<leftarrow> nth_opt (final_layers m) 1; call_opt (val_ops prim) l x }) = Some body"
    and raw: "(do { l \<leftarrow> nth_opt (final_layers m) 3; call_opt (val_ops prim) l x }) = Some raw"
    and s: "t_select (val_ops prim) raw 1 0 = Some s"
    and cam: "t_assign_select (val_ops prim) raw 1 0 (t_pow_base (val_ops prim) 1.1 s) = Some cam"
    and pm: "t_cat (val_ops prim) [cam, body] 1 = Some pm"
    by blast
  have sf: "shape f = [1, 32, 128, 128]"
    using HigherResolutionNet_forward_shape [of prim "backbone m" img, OF ok] f img tf by simp
  have b1: "b = 1" using b tb sf by (simp add: val_ops_sel shape_ops_sel)
  have scm: "shape c = [1, 2, 128, 128]"
    using repeat_shape_hom [of "coordmaps m" "[1, 1, 1, 1]"] c tc b1
    by (simp add: val_ops_sel shape_ops_sel)
  have sx: "shape x = [1, 34, 128, 128]"
    using cat_shape_hom [of "[f, c]" 1] x tx sf scm by (simp add: val_ops_sel)
  have call_sh: "map_option shape (do { l \<leftarrow> nth_opt (final_layers m) k; call_opt (val_ops prim) l x })
      = do { l \<leftarrow> nth_opt (final_layers m) k; call_opt shape_ops l (shape x) }" for k
    by (rule bind_same) (rule call_opt_shape [OF ok])
  have sraw: "shape raw = [1, 3, 64, 64]"
    using call_sh [of 3] raw t3 sx by simp
  have sbody: "shape body = [1, 22 * 6 + 10, 64, 64]"
    using call_sh [of 1] body t1 sx by simp
  have scam: "shape cam = [1, 3, 64, 64]"
    using cam sraw by (auto simp: val_ops_sel assign_select_def split: bind_splits if_splits)
  show ?thesis
    using m fw sc sp raw sraw s cam scam body sbody pm
    by (simp add: val_ops_sel) blast
qed

theorem ROMPv1_forward_shapes_witness:
  "(\<forall>l t. map_option shape
             (map_option (\<lambda>s. \<lparr>shape = s, elem = (\<lambda>ix. Fin 0)\<rparr>) (nn_shape l (shape t)))
           = nn_shape l (shape (t :: fval tensor)))
   \<and> shape \<lparr>shape = [1, 512, 512, 3], elem = (\<lambda>ix. Fin 128)\<rparr> = [1, 512, 512, 3]
   \<and> (\<exists>m center params_maps.
        ROMPv1 = Some m
      \<and> ROMPv1_forward
           (val_ops (\<lambda>l t. map_option (\<lambda>s. \<lparr>shape = s, elem = (\<lambda>ix. Fin 0)\<rparr>)
                             (nn_shape l (shape t))))
           m \<lparr>shape = [1, 512, 512, 3], elem = (\<lambda>ix. Fin 128)\<rparr>
          = Some (center, params_maps)
      \<and> shape center = [1, 1, 64, 64]
      \<and> shape params_maps = [1, 145, 64, 64])"
proof -
  have 1: "\<forall>l t. map_option shape
             (map_option (\<lambda>s. \<lparr>shape = s, elem = (\<lambda>ix. Fin 0)\<rparr>) (nn_shape l (shape t)))
           = nn_shape l (shape (t :: fval tensor))"
    by (simp add: option.map_comp comp_def option.map_ident)
  have 2: "shape \<lparr>shape = [1, 512, 512, 3], elem = (\<lambda>ix. Fin (128::real))\<rparr> = [1, 512, 512, 3]"
    by simp
  from ROMPv1_forward_shapes [OF 1 2] obtain m center params_maps where
    "ROMPv1 = Some m"
    "ROMPv1_forward
           (val_ops (\<lambda>l t. map_option (\<lambda>s. \<lparr>shape = s, elem = (\<lambda>ix. Fin 0)\<rparr>)
                             (nn_shape l (shape t))))
           m \<lparr>shape = [1, 512, 512, 3], elem = (\<lambda>ix. Fin 128)\<rparr>
          = Some (center, params_maps)"
    "shape center = [1, 1, 64, 64]" "shape params_maps = [1, 3 + 22 * 6 + 10, 64, 64]"
    by blast
  then show ?thesis using 1 by auto
qed

text \<open>
  Claim C1 as stated gives the parameter map \<open>22 * 6 + 10 = 142\<close> channels. For the
  all-128 image of shape \<open>(1, 512, 512, 3)\<close> (and layers that return zeros of the
  documented shapes) the second component that \<open>ROMPv1.forward\<close> returns has shape
  \<open>(1, 145, 64, 64)\<close>.
\<close>

theorem ROMPv1_forward_params_counterexample:
  "ROMPv1 \<noteq> None
   \<and> ROMPv1_forward
        (val_ops (\<lambda>l t. map_option (\<lambda>s. \<lparr>shape = s, elem = (\<lambda>ix. Fin 0)\<rparr>)
                          (nn_shape l (shape t))))
        (the ROMPv1) \<lparr>shape = [1, 512, 512, 3], elem = (\<lambda>ix. Fin 128)\<rparr> \<noteq> None
   \<and> shape (snd (the (ROMPv1_forward
        (val_ops (\<lambda>l t. map_option (\<lambda>s. \<lparr>shape = s, elem = (\<lambda>ix. Fin 0)\<rparr>)
                          (nn_shape l (shape t))))
        (the ROMPv1) \<lparr>shape = [1, 512, 512, 3], elem = (\<lambda>ix. Fin 128)\<rparr>)))
       = [1, 145, 64, 64]
   \<and> shape (snd (the (ROMPv1_forward
        (val_ops (\<lambda>l t. map_option (\<lambda>s. \<lparr>shape = s, elem = (\<lambda>ix. Fin 0)\<rparr>)
                          (nn_shape l (shape t))))
        (the ROMPv1) \<lparr>shape = [1, 512, 512, 3], elem = (\<lambda>ix. Fin 128)\<rparr>)))
       \<noteq> [1, 22 * 6 + 10, 64, 64]
   \<and> snd (the (ROMPv1_forward shape_ops (the ROMPv1) [1, 512, 512, 3]))
       \<noteq> [1, 22 * 6 + 10, 64, 64]"
proof -
  let ?prim = "\<lambda>l (t :: fval tensor). map_option (\<lambda>s. \<lparr>shape = s, elem = (\<lambda>ix. Fin 0)\<rparr>)
                          (nn_shape l (shape t))"
  let ?img = "\<lparr>shape = [1, 512, 512, 3], elem = (\<lambda>ix. Fin (128::real))\<rparr>"
  obtain m where m: "ROMPv1 = Some m"
    and r: "ROMPv1_forward shape_ops m [1, 512, 512, 3] = Some ([1, 1, 64, 64], [1, 145, 64, 64])"
    by (rule ROMPv1_trace_facts)
  have ok: "map_option shape (?prim l t) = nn_shape l (shape t)" for l t
    by (simp add: option.map_comp comp_def option.map_ident)
  have "map_option (map_prod shape shape) (ROMPv1_forward (val_ops ?prim) m ?img)
          = Some ([1, 1, 64, 64], [1, 145, 64, 64])"
    using ROMPv1_forward_shape [of ?prim m ?img, OF ok] r by simp
  then obtain center pm where
    fw: "ROMPv1_forward (val_ops ?prim) m ?img = Some (center, pm)"
    and sp: "shape pm = [1, 145, 64, 64]"
    by auto
  show ?thesis
    using r fw sp by (simp add: m)
qed

end
